theory Spec2Isabelle
  imports Main "HOL-Library.Sublist"
begin

section \<open>Decimal integers as strings\<close>

text \<open>
  The reservation store keeps every value as a string. The stock counter is written by
  \<^verbatim>\<open>SET\<close>, \<^verbatim>\<open>INCR\<close> and \<^verbatim>\<open>DECR\<close> as a decimal integer, read back by Lua's
  \<^verbatim>\<open>tonumber\<close> inside the scripts and by JavaScript's \<^verbatim>\<open>parseInt\<close> outside them.
  The store itself computes with signed 64-bit integers, and the range check of its integer
  parser is written out. A number of Lua 5.1 or of JavaScript is a double: see
  \<open>to_double\<close> below.
\<close>

definition digit_table :: "(char \<times> nat) list" where
  "digit_table =
     [(CHR ''0'', 0), (CHR ''1'', 1), (CHR ''2'', 2), (CHR ''3'', 3), (CHR ''4'', 4),
      (CHR ''5'', 5), (CHR ''6'', 6), (CHR ''7'', 7), (CHR ''8'', 8), (CHR ''9'', 9)]"

definition digit_val :: "char \<Rightarrow> nat option" where
  "digit_val c = map_of digit_table c"

definition digit_char :: "nat \<Rightarrow> char" where
  "digit_char d =
     (if d = 0 then CHR ''0'' else if d = 1 then CHR ''1''
      else if d = 2 then CHR ''2'' else if d = 3 then CHR ''3''
      else if d = 4 then CHR ''4'' else if d = 5 then CHR ''5''
      else if d = 6 then CHR ''6'' else if d = 7 then CHR ''7''
      else if d = 8 then CHR ''8'' else CHR ''9'')"

definition is_digit :: "char \<Rightarrow> bool" where
  "is_digit c = (digit_val c \<noteq> None)"

fun nat_digits :: "nat \<Rightarrow> string" where
  "nat_digits n =
     (if n < 10 then [digit_char n] else nat_digits (n div 10) @ [digit_char (n mod 10)])"

declare nat_digits.simps [simp del]

text \<open>
  The decimal form of an integer: the store's \<^verbatim>\<open>ll2string\<close>, and \<^verbatim>\<open>String(n)\<close> of
  JavaScript on a number \<open>n\<close> of magnitude up to \<open>2 ^ 53\<close> (beyond it \<^verbatim>\<open>String\<close> gives
  the shortest digits that read back as the same double, which are not those of \<open>n\<close>).
\<close>

definition int_to_string :: "int \<Rightarrow> string" where
  "int_to_string i =
     (if i < 0 then CHR ''-'' # nat_digits (nat (- i)) else nat_digits (nat i))"

fun digits_value :: "nat \<Rightarrow> string \<Rightarrow> nat option" where
  "digits_value acc [] = Some acc"
| "digits_value acc (c # cs) =
     (case digit_val c of None \<Rightarrow> None | Some d \<Rightarrow> digits_value (10 * acc + d) cs)"

definition parse_nat :: "string \<Rightarrow> nat option" where
  "parse_nat s = (if s = [] then None else digits_value 0 s)"

text \<open>
  Lua's \<^verbatim>\<open>tonumber\<close> on a string, for decimal integer literals with an optional minus
  sign, which are the only numerals this program stores; \<open>None\<close> is Lua's \<^verbatim>\<open>nil\<close>.
  (Lua also reads hexadecimal, fractional and exponent forms; no operation of the
  program writes one.)
\<close>

definition tonumber_str :: "string \<Rightarrow> int option" where
  "tonumber_str s =
     (if s \<noteq> [] \<and> hd s = CHR ''-''
      then map_option (\<lambda>n. - int n) (parse_nat (tl s))
      else map_option int (parse_nat s))"

text \<open>
  The store's own integer parser (\<^verbatim>\<open>string2ll\<close>, behind \<^verbatim>\<open>INCR\<close>, \<^verbatim>\<open>DECR\<close> and
  \<^verbatim>\<open>SETEX\<close>): it accepts exactly the canonical decimal form of a signed 64-bit integer,
  that is, the strings that \<^verbatim>\<open>ll2string\<close> produces.
\<close>

definition LLONG_MIN :: int where
  "LLONG_MIN = - (2 ^ 63)"

definition LLONG_MAX :: int where
  "LLONG_MAX = 2 ^ 63 - 1"

definition string2ll :: "string \<Rightarrow> int option" where
  "string2ll s =
     (case tonumber_str s of
        None \<Rightarrow> None
      | Some n \<Rightarrow>
          if int_to_string n = s \<and> LLONG_MIN \<le> n \<and> n \<le> LLONG_MAX then Some n else None)"

text \<open>
  A number of Lua 5.1 and a number of JavaScript are IEEE 754 doubles. Every integer of
  magnitude up to \<open>2 ^ 53\<close> is a double. A larger integer becomes the nearest integer
  that has a mantissa of 53 bits, a tie going to the even mantissa: \<open>2 ^ 53 + 1\<close> becomes
  \<open>2 ^ 53\<close>, and \<open>2 ^ 53 + 3\<close> becomes \<open>2 ^ 53 + 4\<close>. (The overflow to infinity, beyond
  \<open>10 ^ 308\<close>, is left out.)
\<close>

fun bit_length :: "nat \<Rightarrow> nat" where
  "bit_length n = (if n = 0 then 0 else Suc (bit_length (n div 2)))"

declare bit_length.simps [simp del]

definition to_double :: "int \<Rightarrow> int" where
  "to_double n =
     (if \<bar>n\<bar> \<le> 2 ^ 53 then n
      else
        let a = nat \<bar>n\<bar>;
            q = 2 ^ (bit_length a - 53);
            m = a div q;
            r = a mod q;
            m' = (if q < 2 * r \<or> (2 * r = q \<and> odd m) then m + 1 else m)
        in if n < 0 then - int (m' * q) else int (m' * q))"

text \<open>
  JavaScript's \<^verbatim>\<open>parseInt(s, 10)\<close>: leading white space is skipped, a sign is read, then
  the longest run of digits; \<open>None\<close> is \<^verbatim>\<open>NaN\<close> (no digit where one is expected).
  The white space is that of the ASCII range. The result is a JavaScript number, the
  double of the integer read.
\<close>

definition is_js_space :: "char \<Rightarrow> bool" where
  "is_js_space c = (c \<in> set [CHR '' '', CHR 0x09, CHR 0x0A, CHR 0x0B, CHR 0x0C, CHR 0x0D])"

definition js_parseInt :: "string \<Rightarrow> int option" where
  "js_parseInt s =
     (let t = dropWhile is_js_space s;
          neg = (t \<noteq> [] \<and> hd t = CHR ''-'');
          r = (if t \<noteq> [] \<and> (hd t = CHR ''-'' \<or> hd t = CHR ''+'') then tl t else t);
          ds = takeWhile is_digit r
      in if ds = [] then None
         else map_option (\<lambda>n. to_double (if neg then - int n else int n)) (digits_value 0 ds))"

section \<open>Reservation store\<close>

text \<open>
  A key holds a string (with its time to live in seconds, when one was set) or a set of
  strings. Expiry itself, the passing of time, is not modelled: a time to live is
  recorded as written.
\<close>

datatype rvalue = RString string "nat option" | RSet "string set"

type_synonym store = "string \<Rightarrow> rvalue option"

datatype redis_error = WRONGTYPE | NOT_AN_INTEGER | OVERFLOW | INVALID_EXPIRE | LUA_ERROR

definition redis_GET :: "store \<Rightarrow> string \<Rightarrow> redis_error + string option" where
  "redis_GET s k =
     (case s k of
        None \<Rightarrow> Inr None
      | Some (RString v t) \<Rightarrow> Inr (Some v)
      | Some (RSet m) \<Rightarrow> Inl WRONGTYPE)"

definition redis_SET :: "store \<Rightarrow> string \<Rightarrow> string \<Rightarrow> store" where
  "redis_SET s k v = s(k \<mapsto> RString v None)"

definition redis_SETEX :: "store \<Rightarrow> string \<Rightarrow> string \<Rightarrow> string \<Rightarrow> redis_error + store" where
  "redis_SETEX s k seconds v =
     (case string2ll seconds of
        None \<Rightarrow> Inl NOT_AN_INTEGER
      | Some t \<Rightarrow> if t \<le> 0 then Inl INVALID_EXPIRE else Inr (s(k \<mapsto> RString v (Some (nat t)))))"

definition redis_INCRBY :: "store \<Rightarrow> string \<Rightarrow> int \<Rightarrow> redis_error + int \<times> store" where
  "redis_INCRBY s k d =
     (case s k of
        None \<Rightarrow> Inr (d, s(k \<mapsto> RString (int_to_string d) None))
      | Some (RSet m) \<Rightarrow> Inl WRONGTYPE
      | Some (RString v t) \<Rightarrow>
          (case string2ll v of
             None \<Rightarrow> Inl NOT_AN_INTEGER
           | Some n \<Rightarrow>
               if n + d < LLONG_MIN \<or> LLONG_MAX < n + d then Inl OVERFLOW
               else Inr (n + d, s(k \<mapsto> RString (int_to_string (n + d)) t))))"

definition redis_INCR :: "store \<Rightarrow> string \<Rightarrow> redis_error + int \<times> store" where
  "redis_INCR s k = redis_INCRBY s k 1"

definition redis_DECR :: "store \<Rightarrow> string \<Rightarrow> redis_error + int \<times> store" where
  "redis_DECR s k = redis_INCRBY s k (- 1)"

definition redis_SISMEMBER :: "store \<Rightarrow> string \<Rightarrow> string \<Rightarrow> redis_error + int" where
  "redis_SISMEMBER s k m =
     (case s k of
        None \<Rightarrow> Inr 0
      | Some (RSet ms) \<Rightarrow> Inr (if m \<in> ms then 1 else 0)
      | Some (RString v t) \<Rightarrow> Inl WRONGTYPE)"

definition redis_SADD :: "store \<Rightarrow> string \<Rightarrow> string \<Rightarrow> redis_error + int \<times> store" where
  "redis_SADD s k m =
     (case s k of
        None \<Rightarrow> Inr (1, s(k \<mapsto> RSet {m}))
      | Some (RSet ms) \<Rightarrow> Inr (if m \<in> ms then 0 else 1, s(k \<mapsto> RSet (insert m ms)))
      | Some (RString v t) \<Rightarrow> Inl WRONGTYPE)"

definition redis_EXISTS :: "store \<Rightarrow> string \<Rightarrow> int" where
  "redis_EXISTS s k = (case s k of None \<Rightarrow> 0 | Some v \<Rightarrow> 1)"

section \<open>Lua values and the conversions around a script\<close>

text \<open>
  The scripts run inside the store. Three conversions surround them, each fixed by the
  store's scripting interface and the client library rather than by this repository:
  \<^item> a reply of \<^verbatim>\<open>redis.call\<close> becomes a Lua value: an integer reply a number, a bulk
    reply a string, and the nil bulk reply of \<^verbatim>\<open>GET\<close> on a missing key the boolean
    \<^verbatim>\<open>false\<close> (not \<^verbatim>\<open>nil\<close>);
  \<^item> the table a script returns becomes an array reply, cut at the first \<^verbatim>\<open>nil\<close>
    element; a number becomes an integer, \<^verbatim>\<open>false\<close> the nil reply;
  \<^item> the client hands the array to JavaScript, where an index beyond its length reads
    \<^verbatim>\<open>undefined\<close>.

  A Lua number is a double. The scripts do two things with a number they have read: they
  compare it with zero, and they hand it back. Rounding to a double changes neither the
  sign of an integer nor which double it is handed back as, so a script keeps the integer
  as it read it, and the rounding is applied once, where the number leaves the script for
  JavaScript (\<open>lua_to_js\<close>); an integer reply that a command sends to JavaScript directly
  is rounded in the same way. The one script that writes a number back into the store,
  \<^verbatim>\<open>INITIALIZE_STOCK_SCRIPT\<close>, is modelled for stocks of magnitude up to \<open>2 ^ 53\<close>, which
  it writes as they are; the statements about what it writes carry that bound, unless they
  only count grants or read the sign of the counter.
\<close>

datatype lua = LNil | LBool bool | LNumber int | LString string

definition lua_truthy :: "lua \<Rightarrow> bool" where
  "lua_truthy v = (v \<noteq> LNil \<and> v \<noteq> LBool False)"

definition lua_or :: "lua \<Rightarrow> lua \<Rightarrow> lua" where
  "lua_or a b = (if lua_truthy a then a else b)"

definition lua_and :: "lua \<Rightarrow> lua \<Rightarrow> lua" where
  "lua_and a b = (if lua_truthy a then b else a)"

definition lua_tonumber :: "lua \<Rightarrow> lua" where
  "lua_tonumber v =
     (case v of
        LNumber n \<Rightarrow> LNumber n
      | LString s \<Rightarrow> (case tonumber_str s of None \<Rightarrow> LNil | Some n \<Rightarrow> LNumber n)
      | _ \<Rightarrow> LNil)"

definition bulk_to_lua :: "string option \<Rightarrow> lua" where
  "bulk_to_lua r = (case r of None \<Rightarrow> LBool False | Some v \<Rightarrow> LString v)"

text \<open>\<^verbatim>\<open>redis.call('GET', key)\<close> as the script sees it.\<close>

definition call_GET :: "store \<Rightarrow> string \<Rightarrow> redis_error + lua" where
  "call_GET s k = (case redis_GET s k of Inl e \<Rightarrow> Inl e | Inr r \<Rightarrow> Inr (bulk_to_lua r))"

datatype js = JUndefined | JNull | JNumber int | JString string

definition lua_to_js :: "lua \<Rightarrow> js" where
  "lua_to_js v =
     (case v of
        LNumber n \<Rightarrow> JNumber (to_double n)
      | LString s \<Rightarrow> JString s
      | LBool b \<Rightarrow> (if b then JNumber 1 else JNull)
      | LNil \<Rightarrow> JNull)"

definition table_reply :: "lua list \<Rightarrow> js list" where
  "table_reply t = map lua_to_js (takeWhile (\<lambda>v. v \<noteq> LNil) t)"

definition js_at :: "js list \<Rightarrow> nat \<Rightarrow> js" where
  "js_at xs i = (if i < length xs then xs ! i else JUndefined)"

section \<open>The scripts of \<^verbatim>\<open>lua-scripts.ts\<close>\<close>

text \<open>
  A script is one indivisible step on the store. It returns its outcome, a raised error
  or the returned Lua value, together with the store it leaves; a script that raises
  keeps the writes it made before. \<^verbatim>\<open>KEYS\<close> and \<^verbatim>\<open>ARGV\<close> are the arguments, in
  the order the script reads them.
\<close>

definition ATTEMPT_PURCHASE_SCRIPT ::
  "string \<Rightarrow> string \<Rightarrow> string \<Rightarrow> store \<Rightarrow> (redis_error + lua list) \<times> store" where
  "ATTEMPT_PURCHASE_SCRIPT stockKey attemptedSetKey userId s =
     (case redis_SISMEMBER s attemptedSetKey userId of
        Inl e \<Rightarrow> (Inl e, s)
      | Inr isMember \<Rightarrow>
          if isMember = 1 then
            (case call_GET s stockKey of
               Inl e \<Rightarrow> (Inl e, s)
             | Inr g \<Rightarrow>
                 let currentStock = lua_or g (LString ''0'')
                 in (Inr [LNumber 0, lua_tonumber currentStock, LNumber 0], s))
          else
            (case call_GET s stockKey of
               Inl e \<Rightarrow> (Inl e, s)
             | Inr g \<Rightarrow>
                 (case lua_tonumber (lua_or g (LString ''0'')) of
                    LNumber stock \<Rightarrow>
                      if stock \<le> 0 then
                        (case redis_SADD s attemptedSetKey userId of
                           Inl e \<Rightarrow> (Inl e, s)
                         | Inr (added, s1) \<Rightarrow> (Inr [LNumber 0, LNumber stock, LNumber 1], s1))
                      else
                        (case redis_DECR s stockKey of
                           Inl e \<Rightarrow> (Inl e, s)
                         | Inr (newStock, s1) \<Rightarrow>
                             if newStock < 0 then
                               (case redis_INCR s1 stockKey of
                                  Inl e \<Rightarrow> (Inl e, s1)
                                | Inr (restored, s2) \<Rightarrow>
                                    (case redis_SADD s2 attemptedSetKey userId of
                                       Inl e \<Rightarrow> (Inl e, s2)
                                     | Inr (added, s3) \<Rightarrow>
                                         (Inr [LNumber 0, LNumber (newStock + 1), LNumber 1], s3)))
                             else
                               (case redis_SADD s1 attemptedSetKey userId of
                                  Inl e \<Rightarrow> (Inl e, s1)
                                | Inr (added, s2) \<Rightarrow>
                                    (Inr [LNumber 1, LNumber newStock, LNumber 1], s2)))
                  | _ \<Rightarrow> (Inl LUA_ERROR, s))))"

definition GET_USER_STATUS_SCRIPT ::
  "string \<Rightarrow> string \<Rightarrow> string \<Rightarrow> store \<Rightarrow> (redis_error + lua list) \<times> store" where
  "GET_USER_STATUS_SCRIPT attemptedSetKey resultKey userId s =
     (case redis_SISMEMBER s attemptedSetKey userId of
        Inl e \<Rightarrow> (Inl e, s)
      | Inr hasAttempted \<Rightarrow>
          (case call_GET s resultKey of
             Inl e \<Rightarrow> (Inl e, s)
           | Inr result \<Rightarrow>
               let hasResult = lua_or (lua_and (LBool (result \<noteq> LNil)) (LNumber 1)) (LNumber 0);
                   resultValue = lua_or (lua_and result (lua_tonumber result)) LNil
               in (Inr [LNumber hasAttempted, hasResult, resultValue], s)))"

definition SET_USER_RESULT_SCRIPT ::
  "string \<Rightarrow> string \<Rightarrow> string \<Rightarrow> store \<Rightarrow> (redis_error + lua) \<times> store" where
  "SET_USER_RESULT_SCRIPT resultKey success ttl s =
     (case redis_SETEX s resultKey ttl success of
        Inl e \<Rightarrow> (Inl e, s)
      | Inr s1 \<Rightarrow> (Inr (LNumber 1), s1))"

definition INITIALIZE_STOCK_SCRIPT ::
  "string \<Rightarrow> string \<Rightarrow> store \<Rightarrow> (redis_error + lua) \<times> store" where
  "INITIALIZE_STOCK_SCRIPT stockKey arg s =
     (case lua_tonumber (LString arg) of
        LNumber stock \<Rightarrow> (Inr (LNumber stock), redis_SET s stockKey (int_to_string stock))
      | _ \<Rightarrow> (Inl LUA_ERROR, s))"

definition RESTORE_STOCK_SCRIPT :: "string \<Rightarrow> store \<Rightarrow> (redis_error + lua) \<times> store" where
  "RESTORE_STOCK_SCRIPT stockKey s =
     (case call_GET s stockKey of
        Inl e \<Rightarrow> (Inl e, s)
      | Inr g \<Rightarrow>
          let oldStock = lua_tonumber (lua_or g (LString ''0''))
          in (case redis_INCR s stockKey of
                Inl e \<Rightarrow> (Inl e, s)
              | Inr (newStock, s1) \<Rightarrow>
                  (case oldStock of
                     LNumber old \<Rightarrow> (Inr (LNumber newStock), s1)
                   | _ \<Rightarrow> (Inl LUA_ERROR, s1))))"

section \<open>\<^verbatim>\<open>RedisService\<close>\<close>

text \<open>
  \<^verbatim>\<open>executeScript\<close> runs a script by its hash, loading it first when the store does not
  know it, and rethrows what the script raises: the model runs the script. Each method
  builds its keys, runs its script or command and decodes the reply.
\<close>

record AttemptPurchaseResult =
  success :: bool
  remainingStock :: js
  wasNewAttempt :: bool

record UserStatusResult =
  hasAttempted :: bool
  hasResult :: bool
  result :: "bool option"

text \<open>
  The key-space layout as section 6 of the specification words it; the methods below build
  their keys themselves, as the source does, and are compared with these.
\<close>

definition stock_key :: "string \<Rightarrow> string" where
  "stock_key productId = ''flashsale:stock:'' @ productId"

definition attempted_key :: "string \<Rightarrow> string" where
  "attempted_key productId = ''flashsale:attempted:'' @ productId"

definition result_key :: "string \<Rightarrow> string \<Rightarrow> string" where
  "result_key userId productId = ''flashsale:result:'' @ userId @ '':'' @ productId"

definition RedisService_attemptPurchase ::
  "string \<Rightarrow> string \<Rightarrow> store \<Rightarrow> (redis_error + AttemptPurchaseResult) \<times> store" where
  "RedisService_attemptPurchase userId productId s =
     (let stockKey = ''flashsale:stock:'' @ productId;
          attemptedSetKey = ''flashsale:attempted:'' @ productId
      in case ATTEMPT_PURCHASE_SCRIPT stockKey attemptedSetKey userId s of
           (Inl e, s1) \<Rightarrow> (Inl e, s1)
         | (Inr t, s1) \<Rightarrow>
             let result = table_reply t
             in (Inr \<lparr>success = (js_at result 0 = JNumber 1),
                      remainingStock = js_at result 1,
                      wasNewAttempt = (js_at result 2 = JNumber 1)\<rparr>, s1))"

definition decrementStock :: "string \<Rightarrow> store \<Rightarrow> (redis_error + int) \<times> store" where
  "decrementStock productId s =
     (let key = ''flashsale:stock:'' @ productId
      in case redis_DECR s key of Inl e \<Rightarrow> (Inl e, s) | Inr (n, s1) \<Rightarrow> (Inr (to_double n), s1))"

definition incrementStock :: "string \<Rightarrow> store \<Rightarrow> (redis_error + int) \<times> store" where
  "incrementStock productId s =
     (let key = ''flashsale:stock:'' @ productId
      in case redis_INCR s key of Inl e \<Rightarrow> (Inl e, s) | Inr (n, s1) \<Rightarrow> (Inr (to_double n), s1))"

definition restoreStock :: "string \<Rightarrow> store \<Rightarrow> (redis_error + js) \<times> store" where
  "restoreStock productId s =
     (let stockKey = ''flashsale:stock:'' @ productId
      in case RESTORE_STOCK_SCRIPT stockKey s of
           (Inl e, s1) \<Rightarrow> (Inl e, s1)
         | (Inr v, s1) \<Rightarrow> (Inr (lua_to_js v), s1))"

text \<open>\<^verbatim>\<open>getStock\<close> returns a JavaScript number; \<open>None\<close> is \<^verbatim>\<open>NaN\<close>.\<close>

definition getStock :: "string \<Rightarrow> store \<Rightarrow> redis_error + int option" where
  "getStock productId s =
     (let key = ''flashsale:stock:'' @ productId
      in case redis_GET s key of
           Inl e \<Rightarrow> Inl e
         | Inr None \<Rightarrow> Inr (Some 0)
         | Inr (Some stock) \<Rightarrow> Inr (if stock \<noteq> [] then js_parseInt stock else Some 0))"

definition stockKeyExists :: "string \<Rightarrow> store \<Rightarrow> bool" where
  "stockKeyExists productId s =
     (let key = ''flashsale:stock:'' @ productId in redis_EXISTS s key = 1)"

text \<open>
  \<^verbatim>\<open>executeScript\<close> passes \<^verbatim>\<open>String(stock)\<close> to the script: the decimal form of the
  stock, for a stock of magnitude up to \<open>2 ^ 53\<close>.
\<close>

definition initializeStock :: "string \<Rightarrow> int \<Rightarrow> store \<Rightarrow> (redis_error + unit) \<times> store" where
  "initializeStock productId stock s =
     (let stockKey = ''flashsale:stock:'' @ productId
      in case INITIALIZE_STOCK_SCRIPT stockKey (int_to_string stock) s of
           (Inl e, s1) \<Rightarrow> (Inl e, s1)
         | (Inr v, s1) \<Rightarrow> (Inr (), s1))"

definition addUserToAttemptedSet ::
  "string \<Rightarrow> string \<Rightarrow> store \<Rightarrow> (redis_error + bool) \<times> store" where
  "addUserToAttemptedSet userId productId s =
     (let key = ''flashsale:attempted:'' @ productId
      in case redis_SADD s key userId of
           Inl e \<Rightarrow> (Inl e, s)
         | Inr (n, s1) \<Rightarrow> (Inr (n = 1), s1))"

definition isUserInAttemptedSet :: "string \<Rightarrow> string \<Rightarrow> store \<Rightarrow> redis_error + bool" where
  "isUserInAttemptedSet userId productId s =
     (let key = ''flashsale:attempted:'' @ productId
      in case redis_SISMEMBER s key userId of Inl e \<Rightarrow> Inl e | Inr n \<Rightarrow> Inr (n = 1))"

definition getUserStatus ::
  "string \<Rightarrow> string \<Rightarrow> store \<Rightarrow> (redis_error + UserStatusResult) \<times> store" where
  "getUserStatus userId productId s =
     (let attemptedSetKey = ''flashsale:attempted:'' @ productId;
          resultKey = ''flashsale:result:'' @ userId @ '':'' @ productId
      in case GET_USER_STATUS_SCRIPT attemptedSetKey resultKey userId s of
           (Inl e, s1) \<Rightarrow> (Inl e, s1)
         | (Inr t, s1) \<Rightarrow>
             let r = table_reply t
             in (Inr \<lparr>hasAttempted = (js_at r 0 = JNumber 1),
                      hasResult = (js_at r 1 = JNumber 1),
                      result = (if js_at r 2 \<noteq> JNull then Some (js_at r 2 = JNumber 1) else None)\<rparr>,
                 s1))"

definition setUserResult ::
  "string \<Rightarrow> string \<Rightarrow> bool \<Rightarrow> store \<Rightarrow> (redis_error + unit) \<times> store" where
  "setUserResult userId productId ok s =
     (let resultKey = ''flashsale:result:'' @ userId @ '':'' @ productId;
          ttl = (86400 :: int)
      in case SET_USER_RESULT_SCRIPT resultKey (if ok then ''1'' else ''0'') (int_to_string ttl) s of
           (Inl e, s1) \<Rightarrow> (Inl e, s1)
         | (Inr v, s1) \<Rightarrow> (Inr (), s1))"

definition getUserResult :: "string \<Rightarrow> string \<Rightarrow> store \<Rightarrow> redis_error + bool option" where
  "getUserResult userId productId s =
     (let key = ''flashsale:result:'' @ userId @ '':'' @ productId
      in case redis_GET s key of
           Inl e \<Rightarrow> Inl e
         | Inr None \<Rightarrow> Inr None
         | Inr (Some r) \<Rightarrow> Inr (Some (r = ''1'')))"

section \<open>Durable store, queue and the world of one process\<close>

record FlashSale =
  sale_id :: int
  sale_productId :: int
  sale_startAt :: int
  sale_endAt :: int
  sale_initialStock :: int
  sale_remainingStock :: int

text \<open>
  A queue message. \<^verbatim>\<open>saleId\<close> is optional in the message (\<open>None\<close> is
  \<^verbatim>\<open>undefined\<close>); times are milliseconds since the epoch.
\<close>

record FlashSaleAttempt =
  att_userId :: string
  att_productId :: string
  att_saleId :: "string option"
  att_timestamp :: int

datatype OrderStatus = PENDING | SUCCESS | FAILED

text \<open>
  A row of \<^verbatim>\<open>orders\<close> (migration 004): a serial id, and a unique index on
  \<^verbatim>\<open>(sale_id, user_id)\<close>.
\<close>

record order_row =
  row_id :: int
  row_sale_id :: int
  row_product_id :: int
  row_user_id :: int
  row_status :: OrderStatus


datatype redis_call =
  Call_stockKeyExists string
| Call_initializeStock string int
| Call_attemptPurchase string string
| Call_getUserStatus string string
| Call_setUserResult string string bool
| Call_restoreStock string
| Call_getStock string

text \<open>
  The state the orchestrator and the finalizer act on: the reservation store, the two
  tables, the attempt queue, the audit log, and the list of \<^verbatim>\<open>RedisService\<close> methods
  called so far (what the unit tests observe through their mocks).
\<close>

record world =
  redis :: store
  flash_sales :: "int \<Rightarrow> FlashSale option"
  orders :: "order_row list"
  next_order_id :: int
  attempt_queue :: "FlashSaleAttempt list"
  purchase_attempts :: "FlashSaleAttempt list"
  calls :: "redis_call list"

text \<open>
  What one call of the orchestrator takes from outside: the two readings of the clock,
  whether the publish and the audit write succeed, and \<^verbatim>\<open>Date.toISOString\<close>.
\<close>

record env =
  now :: int
  stamp :: int
  publish_ok :: bool
  audit_ok :: bool
  toISOString :: "int \<Rightarrow> string"

record purchase_response =
  ok :: bool
  message :: string

definition called :: "redis_call \<Rightarrow> world \<Rightarrow> world" where
  "called c w = w\<lparr>calls := calls w @ [c]\<rparr>"

section \<open>\<^verbatim>\<open>FlashSaleService.attemptPurchase\<close>\<close>

text \<open>Lines 111 to 127: the user had already attempted.\<close>

definition already_attempted ::
  "string \<Rightarrow> string \<Rightarrow> world \<Rightarrow> (redis_error + purchase_response) \<times> world" where
  "already_attempted userId productId w =
     (case getUserStatus userId productId (redis w) of
        (Inl e, s1) \<Rightarrow> (Inl e, called (Call_getUserStatus userId productId) (w\<lparr>redis := s1\<rparr>))
      | (Inr userStatus, s1) \<Rightarrow>
          let w1 = called (Call_getUserStatus userId productId) (w\<lparr>redis := s1\<rparr>)
          in if hasResult userStatus \<and> result userStatus \<noteq> None then
               (Inr \<lparr>ok = the (result userStatus),
                     message = (if the (result userStatus)
                                then ''You have successfully secured an item!''
                                else ''Your purchase attempt was unsuccessful.'')\<rparr>, w1)
             else
               (Inr \<lparr>ok = False,
                     message = ''Your purchase attempt is being processed. Please check back shortly.''\<rparr>,
                w1))"

text \<open>Lines 129 to 139: a first attempt that found no stock.\<close>

definition out_of_stock ::
  "string \<Rightarrow> string \<Rightarrow> world \<Rightarrow> (redis_error + purchase_response) \<times> world" where
  "out_of_stock userId productId w =
     (case setUserResult userId productId False (redis w) of
        (Inl e, s1) \<Rightarrow> (Inl e, called (Call_setUserResult userId productId False) (w\<lparr>redis := s1\<rparr>))
      | (Inr u, s1) \<Rightarrow>
          (Inr \<lparr>ok = False, message = ''Sorry, the item is out of stock.''\<rparr>,
           called (Call_setUserResult userId productId False) (w\<lparr>redis := s1\<rparr>)))"

text \<open>
  Lines 141 to 177: the reservation was granted. The audit write is started and not
  awaited; the attempt is published, and the stock restored when the publish throws.
\<close>

definition enqueue_attempt ::
  "env \<Rightarrow> string \<Rightarrow> int \<Rightarrow> string \<Rightarrow> world \<Rightarrow> (redis_error + purchase_response) \<times> world" where
  "enqueue_attempt e userId saleId productId w =
     (let attempt = \<lparr>att_userId = userId, att_productId = productId,
                     att_saleId = Some (int_to_string saleId), att_timestamp = stamp e\<rparr>;
          w1 = (if audit_ok e then w\<lparr>purchase_attempts := purchase_attempts w @ [attempt]\<rparr> else w)
      in if publish_ok e then
           (Inr \<lparr>ok = True,
                 message = ''Your purchase attempt has been received and is being processed.''\<rparr>,
            w1\<lparr>attempt_queue := attempt_queue w1 @ [attempt]\<rparr>)
         else
           (case restoreStock productId (redis w1) of
              (Inl err, s1) \<Rightarrow> (Inl err, called (Call_restoreStock productId) (w1\<lparr>redis := s1\<rparr>))
            | (Inr n, s1) \<Rightarrow>
                (Inr \<lparr>ok = False, message = ''Failed to process your request. Please try again.''\<rparr>,
                 called (Call_restoreStock productId) (w1\<lparr>redis := s1\<rparr>))))"

text \<open>Lines 95 to 105: the stock key is created from the sale's row when it is missing.\<close>

definition ensure_stock :: "string \<Rightarrow> FlashSale \<Rightarrow> world \<Rightarrow> (redis_error + unit) \<times> world" where
  "ensure_stock productId flashSale w =
     (let w1 = called (Call_stockKeyExists productId) w
      in if \<not> stockKeyExists productId (redis w1) then
           (case initializeStock productId (sale_remainingStock flashSale) (redis w1) of
              (r, s1) \<Rightarrow>
                (r, called (Call_initializeStock productId (sale_remainingStock flashSale))
                      (w1\<lparr>redis := s1\<rparr>)))
         else (Inr (), w1))"

definition FlashSaleService_attemptPurchase ::
  "env \<Rightarrow> string \<Rightarrow> int \<Rightarrow> world \<Rightarrow> (redis_error + purchase_response) \<times> world" where
  "FlashSaleService_attemptPurchase e userId saleId w =
     (case flash_sales w saleId of
        None \<Rightarrow>
          (Inr \<lparr>ok = False,
                message = ''Flash sale with ID '' @ int_to_string saleId @ '' not found.''\<rparr>, w)
      | Some flashSale \<Rightarrow>
          if now e < sale_startAt flashSale then
            (Inr \<lparr>ok = False,
                  message = ''Flash sale is not yet active. Start time: ''
                              @ toISOString e (sale_startAt flashSale)\<rparr>, w)
          else if now e > sale_endAt flashSale then
            (Inr \<lparr>ok = False,
                  message = ''Flash sale has ended. End time: ''
                              @ toISOString e (sale_endAt flashSale)\<rparr>, w)
          else
            let productId = int_to_string (sale_productId flashSale)
            in (case ensure_stock productId flashSale w of
                  (Inl err, w1) \<Rightarrow> (Inl err, w1)
                | (Inr u, w1) \<Rightarrow>
                    (case RedisService_attemptPurchase userId productId (redis w1) of
                       (Inl err, s2) \<Rightarrow>
                         (Inl err, called (Call_attemptPurchase userId productId) (w1\<lparr>redis := s2\<rparr>))
                     | (Inr attemptResult, s2) \<Rightarrow>
                         let w2 = called (Call_attemptPurchase userId productId) (w1\<lparr>redis := s2\<rparr>)
                         in if \<not> wasNewAttempt attemptResult then already_attempted userId productId w2
                            else if \<not> success attemptResult then out_of_stock userId productId w2
                            else enqueue_attempt e userId saleId productId w2)))"

section \<open>\<^verbatim>\<open>OrderRepository\<close>\<close>

text \<open>
  What a method throws: an error of the reservation store, or a JavaScript \<^verbatim>\<open>Error\<close>
  with its message.
\<close>

datatype exn = RedisExn redis_error | Error string



text \<open>
  Lines 82 to 116. A \<^verbatim>\<open>NaN\<close> parameter is not a value of the \<^verbatim>\<open>BIGINT\<close> columns: the
  query is rejected and the method rethrows.
\<close>

definition findByUserId :: "string \<Rightarrow> int option \<Rightarrow> world \<Rightarrow> exn + order_row option" where
  "findByUserId userId saleId w =
     (let userIdNum = js_parseInt userId
      in case (userIdNum, saleId) of
           (Some u, Some sid) \<Rightarrow>
             Inr (find (\<lambda>r. row_user_id r = u \<and> row_sale_id r = sid) (orders w))
         | _ \<Rightarrow> Inl (Error ''invalid input syntax for type bigint''))"

section \<open>The finalizer: \<^verbatim>\<open>processFlashSaleAttempt\<close>\<close>

definition worker_setUserResult ::
  "string \<Rightarrow> string \<Rightarrow> bool \<Rightarrow> world \<Rightarrow> (exn + unit) \<times> world" where
  "worker_setUserResult userId productId isSuccess w =
     (case setUserResult userId productId isSuccess (redis w) of
        (Inl r, s1) \<Rightarrow>
          (Inl (RedisExn r), called (Call_setUserResult userId productId isSuccess) (w\<lparr>redis := s1\<rparr>))
      | (Inr u, s1) \<Rightarrow>
          (Inr (), called (Call_setUserResult userId productId isSuccess) (w\<lparr>redis := s1\<rparr>)))"

text \<open>
  \<^verbatim>\<open>error.message.includes('already exists')\<close>. No error message of the reservation store
  holds these words.
\<close>

definition includes_already_exists :: "exn \<Rightarrow> bool" where
  "includes_already_exists x =
     (case x of Error m \<Rightarrow> sublist ''already exists'' m | RedisExn r \<Rightarrow> False)"


text \<open>The \<^verbatim>\<open>catch\<close>, lines 187 to 207; its inner \<^verbatim>\<open>catch\<close> only logs.\<close>

definition attempt_catch ::
  "FlashSaleAttempt \<Rightarrow> int option \<Rightarrow> exn \<Rightarrow> world \<Rightarrow> (exn + unit) \<times> world" where
  "attempt_catch attempt saleIdNum err w =
     (if includes_already_exists err then
        (case findByUserId (att_userId attempt) saleIdNum w of
           Inl checkError \<Rightarrow> (Inr (), w)
         | Inr None \<Rightarrow> (Inr (), w)
         | Inr (Some existingOrder) \<Rightarrow>
             let isSuccess = (row_status existingOrder = SUCCESS)
             in (case worker_setUserResult (att_userId attempt) (att_productId attempt) isSuccess w of
                   (r, w1) \<Rightarrow> (Inr (), w1)))
      else worker_setUserResult (att_userId attempt) (att_productId attempt) False w)"






section \<open>Sequences of reservations, and the specification's view of the store\<close>

text \<open>
  The store runs one script at a time, so concurrent callers of \<^verbatim>\<open>tryReserve\<close> are a
  sequence of calls, in the order the store runs them.
\<close>

fun tryReserve_results ::
  "string \<Rightarrow> string list \<Rightarrow> store \<Rightarrow> (redis_error + AttemptPurchaseResult) list" where
  "tryReserve_results productId [] s = []"
| "tryReserve_results productId (u # us) s =
     fst (RedisService_attemptPurchase u productId s)
       # tryReserve_results productId us (snd (RedisService_attemptPurchase u productId s))"

text \<open>The stores that can be observed between the executions, the first one included.\<close>

fun tryReserve_stores :: "string \<Rightarrow> string list \<Rightarrow> store \<Rightarrow> store list" where
  "tryReserve_stores productId [] s = [s]"
| "tryReserve_stores productId (u # us) s =
     s # tryReserve_stores productId us (snd (RedisService_attemptPurchase u productId s))"

definition is_granted :: "redis_error + AttemptPurchaseResult \<Rightarrow> bool" where
  "is_granted r = (case r of Inl e \<Rightarrow> False | Inr a \<Rightarrow> success a)"

text \<open>
  The StockCounter of a product as the scripts read it (a missing key reads as 0; \<open>None\<close>
  when the key holds no number), and its AttemptedSet.
\<close>

definition StockCounter :: "string \<Rightarrow> store \<Rightarrow> int option" where
  "StockCounter productId s =
     (case s (stock_key productId) of
        None \<Rightarrow> Some 0
      | Some (RString v t) \<Rightarrow> tonumber_str v
      | Some (RSet m) \<Rightarrow> None)"

definition AttemptedSet :: "string \<Rightarrow> store \<Rightarrow> string set" where
  "AttemptedSet productId s =
     (case s (attempted_key productId) of Some (RSet m) \<Rightarrow> m | _ \<Rightarrow> {})"

text \<open>
  The keys of a product hold what the data model says: an integer the store itself
  accepts, and a set.
\<close>

definition store_ok :: "string \<Rightarrow> store \<Rightarrow> bool" where
  "store_ok productId s =
     ((case s (stock_key productId) of
         None \<Rightarrow> True
       | Some (RString v t) \<Rightarrow> string2ll v \<noteq> None
       | Some (RSet m) \<Rightarrow> False)
      \<and> (case s (attempted_key productId) of
           None \<Rightarrow> True
         | Some (RSet m) \<Rightarrow> True
         | Some (RString v t) \<Rightarrow> False))"

text \<open>
  The four steps of section 4.1 of the specification, in its words, as a relation between
  the counter and the set before, the answer, and the counter and the set after. Step 3
  says of the answer only that it is not granted.
\<close>

record reservation =
  granted :: bool
  remaining :: int
  firstAttempt :: bool

definition tryReserve_spec ::
  "string \<Rightarrow> int \<Rightarrow> string set \<Rightarrow> reservation \<Rightarrow> int \<Rightarrow> string set \<Rightarrow> bool" where
  "tryReserve_spec u c A r c' A' =
     (if u \<in> A then
        r = \<lparr>granted = False, remaining = c, firstAttempt = False\<rparr> \<and> c' = c \<and> A' = A
      else if c \<le> 0 then
        r = \<lparr>granted = False, remaining = c, firstAttempt = True\<rparr> \<and> c' = c \<and> A' = insert u A
      else if c - 1 < 0 then
        \<not> granted r \<and> c' = (c - 1) + 1 \<and> A' = insert u A
      else
        r = \<lparr>granted = True, remaining = c - 1, firstAttempt = True\<rparr>
          \<and> c' = c - 1 \<and> A' = insert u A)"

text \<open>
  The key-space layout of section 6 as two relations on stores, for an operation on behalf
  of user \<open>u\<close> and product \<open>p\<close>. What it may write: at the stock key an integer string,
  at the attempted key the set with the user added, at the result key "1" or "0" with a
  time to live of 86400 seconds, and nothing anywhere else. What it may read: two stores
  that agree on the three keys are the same to it.
\<close>

definition layout_write :: "string \<Rightarrow> string \<Rightarrow> store \<Rightarrow> store \<Rightarrow> bool" where
  "layout_write u p s s' =
     (\<forall>k. s' k = s k
        \<or> (k = stock_key p \<and> (\<exists>n t. s' k = Some (RString (int_to_string n) t)))
        \<or> (k = attempted_key p \<and> s' k = Some (RSet (insert u (AttemptedSet p s))))
        \<or> (k = result_key u p
             \<and> (s' k = Some (RString ''1'' (Some 86400))
                \<or> s' k = Some (RString ''0'' (Some 86400)))))"

definition layout_agree :: "string \<Rightarrow> string \<Rightarrow> store \<Rightarrow> store \<Rightarrow> bool" where
  "layout_agree u p s s2 =
     (s2 (stock_key p) = s (stock_key p)
      \<and> s2 (attempted_key p) = s (attempted_key p)
      \<and> s2 (result_key u p) = s (result_key u p))"

section \<open>Example states\<close>

text \<open>
  A store in which product 1 has two items left and user 41 has attempted already.
\<close>

definition shop :: store where
  "shop = [''flashsale:stock:1'' \<mapsto> RString ''2'' None,
           ''flashsale:attempted:1'' \<mapsto> RSet {''41''}]"

text \<open>
  A sale of product 1, open from time 1000 to time 2000, in a process whose store is
  \<open>shop\<close>; a call at time 1500 whose publish succeeds, and one whose publish throws.
  The rendering of a time stands in for \<^verbatim>\<open>toISOString\<close>.
\<close>

definition demo_sale :: FlashSale where
  "demo_sale = \<lparr>sale_id = 1, sale_productId = 1, sale_startAt = 1000, sale_endAt = 2000,
                 sale_initialStock = 2, sale_remainingStock = 2\<rparr>"

definition demo_world :: world where
  "demo_world = \<lparr>redis = shop,
                  flash_sales = (\<lambda>i. if i = 1 then Some demo_sale else None),
                  orders = [], next_order_id = 1, attempt_queue = [],
                  purchase_attempts = [], calls = []\<rparr>"

definition demo_env :: env where
  "demo_env = \<lparr>now = 1500, stamp = 1501, publish_ok = True, audit_ok = True,
                toISOString = int_to_string\<rparr>"

definition demo_env_down :: env where
  "demo_env_down = demo_env\<lparr>publish_ok := False\<rparr>"

text \<open>The same process when product 1 is sold out and nobody has attempted yet.\<close>

definition sold_out_world :: world where
  "sold_out_world = demo_world\<lparr>redis := [''flashsale:stock:1'' \<mapsto> RString ''0'' None]\<rparr>"




section \<open>Properties of the decimal functions\<close>

lemma to_double_exact: "\<bar>n\<bar> \<le> 2 ^ 53 \<Longrightarrow> to_double n = n"
  by (simp add: to_double_def)

lemma to_double_0 [simp]: "to_double 0 = 0"
  by (simp add: to_double_exact)

lemma to_double_1 [simp]: "to_double 1 = 1"
  by (simp add: to_double_exact)

text \<open>
  Beyond \<open>2 ^ 53\<close> a number that goes through Lua or JavaScript is not the integer that the
  store holds.
\<close>

lemma bit_length_bounds:
  "2 ^ k \<le> n \<Longrightarrow> n < 2 ^ Suc k \<Longrightarrow> bit_length n = Suc k"
proof (induction k arbitrary: n)
  case 0
  then have "n = 1" by simp
  then show ?case by (simp add: bit_length.simps)
next
  case (Suc k)
  from Suc.prems have "2 ^ k \<le> n div 2" "n div 2 < 2 ^ Suc k" by simp_all
  from Suc.IH [OF this] Suc.prems show ?case
    by (subst bit_length.simps) auto
qed

lemma to_double_rounds: "to_double 9007199254740993 = 9007199254740992"
proof -
  have "bit_length 9007199254740993 = Suc 53"
    by (rule bit_length_bounds) simp_all
  then show ?thesis
    by (simp add: to_double_def Let_def)
qed

lemma digit_val_digit_char: "d < 10 \<Longrightarrow> digit_val (digit_char d) = Some d"
  by (simp add: digit_val_def digit_table_def digit_char_def)

lemma digit_char_not_minus: "d < 10 \<Longrightarrow> digit_char d \<noteq> CHR ''-''"
  using digit_val_digit_char [of d] by (auto simp: digit_val_def digit_table_def)

lemma digits_value_append:
  "digits_value acc (xs @ ys) =
     (case digits_value acc xs of None \<Rightarrow> None | Some a \<Rightarrow> digits_value a ys)"
  by (induction xs arbitrary: acc) (auto split: option.splits)

lemma digits_value_nat_digits: "digits_value 0 (nat_digits n) = Some n"
proof (induction n rule: nat_digits.induct)
  case (1 n)
  show ?case
  proof (cases "n < 10")
    case True
    then show ?thesis by (subst nat_digits.simps) (simp add: digit_val_digit_char)
  next
    case False
    then have "digits_value 0 (nat_digits (n div 10)) = Some (n div 10)" using 1 by simp
    with False show ?thesis
      by (subst nat_digits.simps) (simp add: digits_value_append digit_val_digit_char)
  qed
qed

lemma nat_digits_not_Nil: "nat_digits n \<noteq> []"
  by (subst nat_digits.simps) simp

lemma hd_nat_digits_not_minus: "hd (nat_digits n) \<noteq> CHR ''-''"
proof (induction n rule: nat_digits.induct)
  case (1 n)
  show ?case
  proof (cases "n < 10")
    case True
    then show ?thesis by (subst nat_digits.simps) (simp add: digit_char_not_minus)
  next
    case False
    with 1 show ?thesis
      by (subst nat_digits.simps) (simp add: nat_digits_not_Nil)
  qed
qed

lemma tonumber_int_to_string: "tonumber_str (int_to_string i) = Some i"
  by (simp add: tonumber_str_def int_to_string_def parse_nat_def nat_digits_not_Nil
      hd_nat_digits_not_minus digits_value_nat_digits)

lemma string2ll_int_to_string:
  "LLONG_MIN \<le> i \<Longrightarrow> i \<le> LLONG_MAX \<Longrightarrow> string2ll (int_to_string i) = Some i"
  by (simp add: string2ll_def tonumber_int_to_string)

lemma string2ll_SomeD:
  "string2ll v = Some n \<Longrightarrow> tonumber_str v = Some n \<and> int_to_string n = v \<and> LLONG_MIN \<le> n \<and> n \<le> LLONG_MAX"
  by (auto simp: string2ll_def split: option.splits if_splits)

section \<open>The reservation script, branch by branch\<close>

lemma keys_distinct [simp]:
  "stock_key p \<noteq> attempted_key q" "attempted_key q \<noteq> stock_key p"
  "result_key u p \<noteq> attempted_key q" "attempted_key q \<noteq> result_key u p"
  "result_key u p \<noteq> stock_key q" "stock_key q \<noteq> result_key u p"
  by (simp_all add: stock_key_def attempted_key_def result_key_def)

lemma string2ll_tonumber: "string2ll v = Some n \<Longrightarrow> tonumber_str v = Some n"
  by (simp add: string2ll_SomeD)

lemma tonumber_zero: "tonumber_str ''0'' = Some 0"
  by (simp add: tonumber_str_def parse_nat_def digit_val_def digit_table_def)

lemma RedisService_attemptPurchase_keys:
  "RedisService_attemptPurchase u p s =
     (case ATTEMPT_PURCHASE_SCRIPT (stock_key p) (attempted_key p) u s of
        (Inl e, s1) \<Rightarrow> (Inl e, s1)
      | (Inr t, s1) \<Rightarrow>
          (Inr \<lparr>success = (js_at (table_reply t) 0 = JNumber 1),
                remainingStock = js_at (table_reply t) 1,
                wasNewAttempt = (js_at (table_reply t) 2 = JNumber 1)\<rparr>, s1))"
  by (simp add: RedisService_attemptPurchase_def stock_key_def attempted_key_def Let_def
      split: prod.splits sum.splits)

lemma reserve_repeat:
  assumes "s (attempted_key p) = Some (RSet m)" "u \<in> m" "\<forall>m'. s (stock_key p) \<noteq> Some (RSet m')"
  shows "RedisService_attemptPurchase u p s =
     (Inr \<lparr>success = False,
           remainingStock = (case StockCounter p s of None \<Rightarrow> JUndefined | Some c \<Rightarrow> JNumber (to_double c)),
           wasNewAttempt = False\<rparr>, s)"
  using assms
  by (auto simp: RedisService_attemptPurchase_keys ATTEMPT_PURCHASE_SCRIPT_def redis_SISMEMBER_def
      call_GET_def redis_GET_def bulk_to_lua_def lua_or_def lua_truthy_def lua_tonumber_def
      tonumber_zero StockCounter_def table_reply_def js_at_def lua_to_js_def
      split: option.splits rvalue.splits)

lemma reserve_no_stock:
  assumes "u \<notin> AttemptedSet p s" "\<forall>v t. s (attempted_key p) \<noteq> Some (RString v t)"
    and "StockCounter p s = Some c" "c \<le> 0"
  shows "RedisService_attemptPurchase u p s =
     (Inr \<lparr>success = False, remainingStock = JNumber (to_double c), wasNewAttempt = True\<rparr>,
      s(attempted_key p \<mapsto> RSet (insert u (AttemptedSet p s))))"
  using assms
  by (auto simp: RedisService_attemptPurchase_keys ATTEMPT_PURCHASE_SCRIPT_def redis_SISMEMBER_def
      redis_SADD_def AttemptedSet_def
      call_GET_def redis_GET_def bulk_to_lua_def lua_or_def lua_truthy_def lua_tonumber_def
      tonumber_zero StockCounter_def table_reply_def js_at_def lua_to_js_def
      split: option.splits rvalue.splits)

lemma reserve_grant:
  assumes "u \<notin> AttemptedSet p s" "\<forall>v t. s (attempted_key p) \<noteq> Some (RString v t)"
    and "s (stock_key p) = Some (RString v t)" "string2ll v = Some c" "0 < c"
  shows "RedisService_attemptPurchase u p s =
     (Inr \<lparr>success = True, remainingStock = JNumber (to_double (c - 1)), wasNewAttempt = True\<rparr>,
      s(stock_key p \<mapsto> RString (int_to_string (c - 1)) t,
        attempted_key p \<mapsto> RSet (insert u (AttemptedSet p s))))"
proof -
  from assms(4) have tn: "tonumber_str v = Some c" and lo: "LLONG_MIN \<le> c" and hi: "c \<le> LLONG_MAX"
    by (simp_all add: string2ll_SomeD)
  have rng: "\<not> (c + - 1 < LLONG_MIN \<or> LLONG_MAX < c + - 1)"
    using assms(5) hi by (simp add: LLONG_MIN_def LLONG_MAX_def)
  show ?thesis
    using assms tn rng
    by (auto simp: RedisService_attemptPurchase_keys ATTEMPT_PURCHASE_SCRIPT_def redis_SISMEMBER_def
      redis_SADD_def AttemptedSet_def redis_DECR_def redis_INCRBY_def
      call_GET_def redis_GET_def bulk_to_lua_def lua_or_def lua_truthy_def lua_tonumber_def
      table_reply_def js_at_def lua_to_js_def
      split: option.splits rvalue.splits)
qed

lemmas script_defs =
  RedisService_attemptPurchase_keys ATTEMPT_PURCHASE_SCRIPT_def redis_SISMEMBER_def
  redis_SADD_def redis_DECR_def redis_INCR_def redis_INCRBY_def call_GET_def redis_GET_def
  bulk_to_lua_def lua_or_def lua_truthy_def lua_tonumber_def tonumber_zero
  table_reply_def js_at_def lua_to_js_def

lemma reserve_cases:
  assumes run: "RedisService_attemptPurchase u p s = (r, s')"
  obtains
    (error) e where "r = Inl e" "s' = s"
  | (repeat) m where "s (attempted_key p) = Some (RSet m)" "u \<in> m"
      "\<forall>m'. s (stock_key p) \<noteq> Some (RSet m')"
      "r = Inr \<lparr>success = False,
                remainingStock = (case StockCounter p s of None \<Rightarrow> JUndefined | Some c \<Rightarrow> JNumber (to_double c)),
                wasNewAttempt = False\<rparr>" "s' = s"
  | (no_stock) c where "u \<notin> AttemptedSet p s"
      "\<forall>v t. s (attempted_key p) \<noteq> Some (RString v t)" "StockCounter p s = Some c" "c \<le> 0"
      "r = Inr \<lparr>success = False, remainingStock = JNumber (to_double c), wasNewAttempt = True\<rparr>"
      "s' = s(attempted_key p \<mapsto> RSet (insert u (AttemptedSet p s)))"
  | (grant) c v t where "u \<notin> AttemptedSet p s"
      "\<forall>v t. s (attempted_key p) \<noteq> Some (RString v t)"
      "s (stock_key p) = Some (RString v t)" "string2ll v = Some c" "0 < c"
      "r = Inr \<lparr>success = True, remainingStock = JNumber (to_double (c - 1)), wasNewAttempt = True\<rparr>"
      "s' = s(stock_key p \<mapsto> RString (int_to_string (c - 1)) t,
              attempted_key p \<mapsto> RSet (insert u (AttemptedSet p s)))"
proof -
  consider (wrong) v t where "s (attempted_key p) = Some (RString v t)"
    | (member) m where "s (attempted_key p) = Some (RSet m)" "u \<in> m"
    | (fresh) "u \<notin> AttemptedSet p s" "\<forall>v t. s (attempted_key p) \<noteq> Some (RString v t)"
    by (cases "s (attempted_key p)"; cases "the (s (attempted_key p))")
       (auto simp: AttemptedSet_def)
  then show thesis
  proof cases
    case wrong
    with run have "r = Inl WRONGTYPE" "s' = s" by (auto simp: script_defs)
    then show thesis by (rule error)
  next
    case member
    show thesis
    proof (cases "\<exists>m'. s (stock_key p) = Some (RSet m')")
      case True
      with run member have "r = Inl WRONGTYPE" "s' = s" by (auto simp: script_defs)
      then show thesis by (rule error)
    next
      case False
      then have ns: "\<forall>m'. s (stock_key p) \<noteq> Some (RSet m')" by simp
      from reserve_repeat [OF member ns] run show thesis
        using member ns by (intro repeat [of m]) auto
    qed
  next
    case fresh
    then have sis: "redis_SISMEMBER s (attempted_key p) u = Inr 0"
      by (auto simp: redis_SISMEMBER_def AttemptedSet_def split: option.splits rvalue.splits)
    note unf = RedisService_attemptPurchase_keys ATTEMPT_PURCHASE_SCRIPT_def sis call_GET_def
      redis_GET_def bulk_to_lua_def lua_or_def lua_truthy_def lua_tonumber_def
      redis_DECR_def redis_INCRBY_def
    show thesis
    proof (cases "s (stock_key p)")
      case None
      then have sc: "StockCounter p s = Some 0" by (simp add: StockCounter_def)
      from reserve_no_stock [OF fresh sc] run show thesis
        using fresh sc by (intro no_stock [of 0]) auto
    next
      case (Some val)
      show thesis
      proof (cases val)
        case (RSet m')
        with run Some have "r = Inl WRONGTYPE" "s' = s"
          by (simp_all add: unf)
        then show thesis by (rule error)
      next
        case (RString v t)
        show thesis
        proof (cases "tonumber_str v")
          case None
          with run Some RString have "r = Inl LUA_ERROR" "s' = s"
            by (simp_all add: unf)
          then show thesis by (rule error)
        next
          case (Some c)
          note tn = this
          have sc: "StockCounter p s = Some c"
            using \<open>s (stock_key p) = Some val\<close> RString tn by (simp add: StockCounter_def)
          show thesis
          proof (cases "c \<le> 0")
            case True
            from reserve_no_stock [OF fresh sc True] run show thesis
              using fresh sc True by (intro no_stock [of c]) auto
          next
            case False
            show thesis
            proof (cases "string2ll v")
              case None
              with run \<open>s (stock_key p) = Some val\<close> RString tn False
              have "r = Inl NOT_AN_INTEGER" "s' = s"
                by (simp_all add: unf)
              then show thesis by (rule error)
            next
              case (Some c')
              with tn have "c' = c" by (simp add: string2ll_SomeD)
              with Some have s2: "string2ll v = Some c" by simp
              have sk: "s (stock_key p) = Some (RString v t)"
                using \<open>s (stock_key p) = Some val\<close> RString by simp
              from False have pos: "0 < c" by simp
              from reserve_grant [OF fresh sk s2 pos] run show thesis
                using fresh sk s2 pos by (intro grant [of v t c]) auto
            qed
          qed
        qed
      qed
    qed
  qed
qed

lemma StockCounter_upd_attempted [simp]:
  "StockCounter p (s(attempted_key q \<mapsto> x)) = StockCounter p s"
  by (simp add: StockCounter_def)

lemma StockCounter_upd_stock [simp]:
  "StockCounter p (s(stock_key p \<mapsto> RString (int_to_string n) t)) = Some n"
  by (simp add: StockCounter_def tonumber_int_to_string)

lemma AttemptedSet_upd [simp]:
  "AttemptedSet p (s(attempted_key p \<mapsto> RSet m)) = m"
  by (simp add: AttemptedSet_def)

lemma AttemptedSet_upd_stock [simp]:
  "AttemptedSet p (s(stock_key q \<mapsto> x)) = AttemptedSet p s"
  by (simp add: AttemptedSet_def)

lemma store_ok_counter:
  assumes "store_ok p s"
  obtains c where "StockCounter p s = Some c"
    and "\<And>v t. s (stock_key p) = Some (RString v t) \<Longrightarrow> string2ll v = Some c"
    and "s (stock_key p) = None \<Longrightarrow> c = 0"
  using assms
  by (cases "s (stock_key p)"; cases "the (s (stock_key p))")
     (auto simp: store_ok_def StockCounter_def string2ll_tonumber split: option.splits rvalue.splits)

text \<open>
  Claim C3. Take a store whose keys for the product hold what the data model says, with a
  counter \<open>c\<close> of magnitude up to \<open>2 ^ 53\<close>, the integers that a number of Lua and of
  JavaScript holds exactly. Then \<^verbatim>\<open>tryReserve\<close> returns an answer, and the answer, the
  counter and the set it leaves stand in the relation of the four steps of section 4.1 to
  the counter and the set it found; no other key changes, and a repeat caller changes
  nothing at all. (Beyond the bound the store still counts exactly, but the remaining
  stock in the answer is the counter rounded to a double.)
\<close>
theorem tryReserve_four_steps:
  assumes ok: "store_ok p s" and sc: "StockCounter p s = Some c" and small: "\<bar>c\<bar> \<le> 2 ^ 53"
  shows "\<exists>r c'.
           fst (RedisService_attemptPurchase u p s) =
             Inr \<lparr>success = granted r, remainingStock = JNumber (remaining r),
                  wasNewAttempt = firstAttempt r\<rparr>
         \<and> StockCounter p (snd (RedisService_attemptPurchase u p s)) = Some c'
         \<and> tryReserve_spec u c (AttemptedSet p s) r c'
              (AttemptedSet p (snd (RedisService_attemptPurchase u p s)))
         \<and> (\<forall>k. k \<noteq> stock_key p \<and> k \<noteq> attempted_key p \<longrightarrow>
               snd (RedisService_attemptPurchase u p s) k = s k)
         \<and> (u \<in> AttemptedSet p s \<longrightarrow> snd (RedisService_attemptPurchase u p s) = s)"
proof -
  from ok have nostr: "\<forall>v t. s (attempted_key p) \<noteq> Some (RString v t)"
    and noset: "\<forall>m'. s (stock_key p) \<noteq> Some (RSet m')"
    by (auto simp: store_ok_def split: option.splits rvalue.splits)
  from ok sc have ll: "\<And>v t. s (stock_key p) = Some (RString v t) \<Longrightarrow> string2ll v = Some c"
    and none: "s (stock_key p) = None \<Longrightarrow> c = 0"
    by (auto elim!: store_ok_counter)
  from small have exact: "to_double c = c"
    by (rule to_double_exact)
  show ?thesis
  proof (cases "u \<in> AttemptedSet p s")
    case True
    then obtain m where m: "s (attempted_key p) = Some (RSet m)" "u \<in> m"
      by (auto simp: AttemptedSet_def split: option.splits rvalue.splits)
    let ?r = "\<lparr>granted = False, remaining = c, firstAttempt = False\<rparr>"
    from reserve_repeat [OF m noset] sc True exact
    have "fst (RedisService_attemptPurchase u p s) =
             Inr \<lparr>success = granted ?r, remainingStock = JNumber (remaining ?r),
                  wasNewAttempt = firstAttempt ?r\<rparr>
         \<and> StockCounter p (snd (RedisService_attemptPurchase u p s)) = Some c
         \<and> tryReserve_spec u c (AttemptedSet p s) ?r c
              (AttemptedSet p (snd (RedisService_attemptPurchase u p s)))
         \<and> (\<forall>k. k \<noteq> stock_key p \<and> k \<noteq> attempted_key p \<longrightarrow>
               snd (RedisService_attemptPurchase u p s) k = s k)
         \<and> (u \<in> AttemptedSet p s \<longrightarrow> snd (RedisService_attemptPurchase u p s) = s)"
      by (simp add: tryReserve_spec_def)
    then show ?thesis by blast
  next
    case False
    show ?thesis
    proof (cases "c \<le> 0")
      case True
      let ?r = "\<lparr>granted = False, remaining = c, firstAttempt = True\<rparr>"
      from reserve_no_stock [OF False nostr sc True] sc False True exact
      have "fst (RedisService_attemptPurchase u p s) =
             Inr \<lparr>success = granted ?r, remainingStock = JNumber (remaining ?r),
                  wasNewAttempt = firstAttempt ?r\<rparr>
         \<and> StockCounter p (snd (RedisService_attemptPurchase u p s)) = Some c
         \<and> tryReserve_spec u c (AttemptedSet p s) ?r c
              (AttemptedSet p (snd (RedisService_attemptPurchase u p s)))
         \<and> (\<forall>k. k \<noteq> stock_key p \<and> k \<noteq> attempted_key p \<longrightarrow>
               snd (RedisService_attemptPurchase u p s) k = s k)
         \<and> (u \<in> AttemptedSet p s \<longrightarrow> snd (RedisService_attemptPurchase u p s) = s)"
        by (simp add: tryReserve_spec_def)
      then show ?thesis by blast
    next
      case pos: False
      with none obtain v t where sk: "s (stock_key p) = Some (RString v t)"
        using noset by (cases "s (stock_key p)"; cases "the (s (stock_key p))") auto
      from ll [OF sk] have s2: "string2ll v = Some c" .
      from pos have pos': "0 < c" by simp
      from small pos' have "\<bar>c - 1\<bar> \<le> 2 ^ 53" by simp
      then have exact': "to_double (c - 1) = c - 1"
        by (rule to_double_exact)
      let ?r = "\<lparr>granted = True, remaining = c - 1, firstAttempt = True\<rparr>"
      from reserve_grant [OF False nostr sk s2 pos'] sc False pos exact'
      have "fst (RedisService_attemptPurchase u p s) =
             Inr \<lparr>success = granted ?r, remainingStock = JNumber (remaining ?r),
                  wasNewAttempt = firstAttempt ?r\<rparr>
         \<and> StockCounter p (snd (RedisService_attemptPurchase u p s)) = Some (c - 1)
         \<and> tryReserve_spec u c (AttemptedSet p s) ?r (c - 1)
              (AttemptedSet p (snd (RedisService_attemptPurchase u p s)))
         \<and> (\<forall>k. k \<noteq> stock_key p \<and> k \<noteq> attempted_key p \<longrightarrow>
               snd (RedisService_attemptPurchase u p s) k = s k)
         \<and> (u \<in> AttemptedSet p s \<longrightarrow> snd (RedisService_attemptPurchase u p s) = s)"
        by (simp add: tryReserve_spec_def)
      then show ?thesis by blast
    qed
  qed
qed

lemma StockCounter_cong:
  "s2 (stock_key p) = s (stock_key p) \<Longrightarrow> StockCounter p s2 = StockCounter p s"
  by (simp add: StockCounter_def)

lemma AttemptedSet_cong:
  "s2 (attempted_key p) = s (attempted_key p) \<Longrightarrow> AttemptedSet p s2 = AttemptedSet p s"
  by (simp add: AttemptedSet_def)

lemma denied_store:
  assumes run: "RedisService_attemptPurchase u p s = (Inr a, s')" and denied: "\<not> success a"
  shows "s' = s \<or> s' = s(attempted_key p \<mapsto> RSet (insert u (AttemptedSet p s)))"
  using run
proof (cases rule: reserve_cases)
  case (grant c v t)
  with denied show ?thesis by simp
qed simp_all

lemma denied_reads:
  assumes run: "RedisService_attemptPurchase u p s = (Inr a, s')" and denied: "\<not> success a"
    and same: "s2 (stock_key p) = s (stock_key p)" "s2 (attempted_key p) = s (attempted_key p)"
  shows "fst (RedisService_attemptPurchase u p s2) = Inr a"
  using run
proof (cases rule: reserve_cases)
  case (error e)
  then show ?thesis by simp
next
  case (repeat m)
  have "s2 (attempted_key p) = Some (RSet m)" "\<forall>m'. s2 (stock_key p) \<noteq> Some (RSet m')"
    using same repeat(1,3) by simp_all
  from reserve_repeat [OF this(1) repeat(2) this(2)]
  have "fst (RedisService_attemptPurchase u p s2) =
      Inr \<lparr>success = False,
           remainingStock = (case StockCounter p s of None \<Rightarrow> JUndefined | Some c \<Rightarrow> JNumber (to_double c)),
           wasNewAttempt = False\<rparr>"
    by (simp add: StockCounter_cong [of s2 p s, OF same(1)])
  with repeat(4) show ?thesis by simp
next
  case (no_stock c)
  have "u \<notin> AttemptedSet p s2" "\<forall>v t. s2 (attempted_key p) \<noteq> Some (RString v t)"
    "StockCounter p s2 = Some c"
    using no_stock(1,2,3) by (simp_all add: StockCounter_cong [of s2 p s, OF same(1)] AttemptedSet_cong [of s2 p s, OF same(2)] same(2))
  from reserve_no_stock [OF this no_stock(4)] no_stock(5)
  show ?thesis by simp
next
  case (grant c v t)
  with denied show ?thesis by simp
qed

text \<open>
  Claim C10. An execution of the reservation script that answers "not granted" leaves the
  stock key as it was and every key other than the attempted set as it was; the store is
  unchanged or the user has been added to the attempted set; no result-cache key is
  written, and none is read: the answer is the same on every store that agrees on the
  stock key and the attempted set.
\<close>
theorem denied_frame:
  assumes run: "RedisService_attemptPurchase u p s = (Inr a, s')" and denied: "\<not> success a"
  shows "s' (stock_key p) = s (stock_key p)
       \<and> (\<forall>k. k \<noteq> attempted_key p \<longrightarrow> s' k = s k)
       \<and> (s' = s \<or> s' = s(attempted_key p \<mapsto> RSet (insert u (AttemptedSet p s))))
       \<and> (\<forall>u' p'. s' (result_key u' p') = s (result_key u' p'))
       \<and> (\<forall>s2. s2 (stock_key p) = s (stock_key p) \<and> s2 (attempted_key p) = s (attempted_key p)
              \<longrightarrow> fst (RedisService_attemptPurchase u p s2) = Inr a)"
proof -
  note st = denied_store [OF run denied]
  from st have 1: "s' (stock_key p) = s (stock_key p)" by auto
  from st have 2: "\<forall>k. k \<noteq> attempted_key p \<longrightarrow> s' k = s k" by auto
  from st have 4: "\<forall>u' p'. s' (result_key u' p') = s (result_key u' p')" by auto
  have 5: "\<forall>s2. s2 (stock_key p) = s (stock_key p) \<and> s2 (attempted_key p) = s (attempted_key p)
              \<longrightarrow> fst (RedisService_attemptPurchase u p s2) = Inr a"
    using denied_reads [OF run denied] by blast
  from 1 2 st 4 5 show ?thesis by blast
qed

section \<open>Sequences of reservations\<close>

text \<open>
  Through a sequence of reservations the stock key holds the decimal string of an integer
  that is not negative; a granted call lowers it by one and no other call changes it.
\<close>

lemma initializeStock_store:
  "initializeStock p n s = (Inr (), s(stock_key p \<mapsto> RString (int_to_string n) None))"
  by (simp add: initializeStock_def INITIALIZE_STOCK_SCRIPT_def lua_tonumber_def
      tonumber_int_to_string redis_SET_def stock_key_def)

lemma reserve_step_counter:
  assumes inv: "s (stock_key p) = Some (RString (int_to_string n) t)" and nn: "0 \<le> n"
    and run: "RedisService_attemptPurchase u p s = (r, s')"
  shows "(\<not> is_granted r \<and> s' (stock_key p) = Some (RString (int_to_string n) t))
       \<or> (is_granted r \<and> 0 < n \<and> s' (stock_key p) = Some (RString (int_to_string (n - 1)) t))"
  using run
proof (cases rule: reserve_cases)
  case (error e)
  with inv show ?thesis by (simp add: is_granted_def)
next
  case (repeat m)
  with inv show ?thesis by (simp add: is_granted_def)
next
  case (no_stock c)
  with inv show ?thesis by (simp add: is_granted_def)
next
  case (grant c v t')
  from inv grant(3) have vt: "v = int_to_string n" "t' = t" by simp_all
  with grant(4) have "c = n" by (simp add: string2ll_def tonumber_int_to_string split: if_splits)
  with grant vt show ?thesis by (simp add: is_granted_def)
qed

lemma grants_bounded:
  assumes "s (stock_key p) = Some (RString (int_to_string n) t)" "0 \<le> n"
  shows "int (length (filter is_granted (tryReserve_results p us s))) \<le> n
       \<and> (\<forall>s' \<in> set (tryReserve_stores p us s). \<exists>c. StockCounter p s' = Some c \<and> 0 \<le> c)"
  using assms
proof (induction us arbitrary: s n)
  case Nil
  then show ?case by (simp add: StockCounter_def tonumber_int_to_string)
next
  case (Cons u us)
  obtain r s' where run: "RedisService_attemptPurchase u p s = (r, s')"
    by (cases "RedisService_attemptPurchase u p s")
  have here: "\<exists>c. StockCounter p s = Some c \<and> 0 \<le> c"
    using Cons.prems by (simp add: StockCounter_def tonumber_int_to_string)
  from reserve_step_counter [OF Cons.prems run]
  show ?case
  proof
    assume a: "\<not> is_granted r \<and> s' (stock_key p) = Some (RString (int_to_string n) t)"
    with Cons.IH [of s' n] Cons.prems(2) run here show ?thesis by simp
  next
    assume a: "is_granted r \<and> 0 < n \<and> s' (stock_key p) = Some (RString (int_to_string (n - 1)) t)"
    with Cons.IH [of s' "n - 1"] run here show ?thesis by simp
  qed
qed

text \<open>
  Claim C1. After the stock of a product has been initialized to \<open>N \<ge> 0\<close>, in any
  sequence of \<^verbatim>\<open>tryReserve\<close> calls for it (by any users, distinct or not, on any set of
  earlier attempts) at most \<open>N\<close> calls are granted, and in every store between two
  executions the counter reads as a number that is not negative.
\<close>
theorem no_overselling:
  assumes "0 \<le> N"
  shows "int (length (filter is_granted
            (tryReserve_results p us (snd (initializeStock p N s0))))) \<le> N
       \<and> (\<forall>s' \<in> set (tryReserve_stores p us (snd (initializeStock p N s0))).
             \<exists>c. StockCounter p s' = Some c \<and> 0 \<le> c)"
proof -
  have "snd (initializeStock p N s0) (stock_key p) = Some (RString (int_to_string N) None)"
    by (simp add: initializeStock_store)
  from grants_bounded [of "snd (initializeStock p N s0)" p N None us, OF this assms]
  show ?thesis .
qed

lemma repeat_results:
  assumes "s (attempted_key p) = Some (RSet m)" "u \<in> m" "\<forall>m'. s (stock_key p) \<noteq> Some (RSet m')"
  shows "tryReserve_results p (replicate k u) s =
     replicate k (Inr \<lparr>success = False,
        remainingStock = (case StockCounter p s of None \<Rightarrow> JUndefined | Some c \<Rightarrow> JNumber (to_double c)),
        wasNewAttempt = False\<rparr>)"
  by (induction k) (simp_all add: reserve_repeat [OF assms])

lemma error_results:
  assumes "fst (RedisService_attemptPurchase u p s) = Inl e"
  shows "tryReserve_results p (replicate k u) s = replicate k (Inl e)"
proof -
  obtain r s' where run: "RedisService_attemptPurchase u p s = (r, s')"
    by (cases "RedisService_attemptPurchase u p s")
  from run assms have r: "r = Inl e" by simp
  from run have "s' = s" using r by (cases rule: reserve_cases) simp_all
  with run r have "RedisService_attemptPurchase u p s = (Inl e, s)" by simp
  then show ?thesis by (induction k) simp_all
qed

lemma first_call_marks:
  assumes run: "RedisService_attemptPurchase u p s = (Inr a, s')"
  shows "\<exists>m. s' (attempted_key p) = Some (RSet m) \<and> u \<in> m"
    and "\<forall>m'. s' (stock_key p) \<noteq> Some (RSet m')"
  using run by (cases rule: reserve_cases; auto simp: StockCounter_def split: option.splits rvalue.splits)+

text \<open>
  Claim C2. Among any number of \<^verbatim>\<open>tryReserve\<close> calls of one user for one product at most
  one is granted; when the first call returns an answer, the user is in the attempted set
  after it, whatever the answer, and every later call answers "not a first attempt" and
  "not granted".
\<close>
theorem one_grant_per_user:
  "length (filter is_granted (tryReserve_results p (replicate k u) s)) \<le> 1
   \<and> (\<forall>a. fst (RedisService_attemptPurchase u p s) = Inr a \<longrightarrow>
         u \<in> AttemptedSet p (snd (RedisService_attemptPurchase u p s))
       \<and> (\<forall>r \<in> set (tl (tryReserve_results p (replicate k u) s)).
             \<exists>b. r = Inr b \<and> \<not> wasNewAttempt b \<and> \<not> success b))"
proof (cases "fst (RedisService_attemptPurchase u p s)")
  case (Inl e)
  from error_results [OF this, of k] Inl show ?thesis
    by (simp add: is_granted_def)
next
  case (Inr a)
  obtain s' where run: "RedisService_attemptPurchase u p s = (Inr a, s')"
    using Inr by (cases "RedisService_attemptPurchase u p s") simp
  from first_call_marks [OF run] obtain m where
    m: "s' (attempted_key p) = Some (RSet m)" "u \<in> m" "\<forall>m'. s' (stock_key p) \<noteq> Some (RSet m')"
    by blast
  then have mem: "u \<in> AttemptedSet p s'" by (simp add: AttemptedSet_def)
  show ?thesis
  proof (cases k)
    case 0
    with run mem show ?thesis by simp
  next
    case (Suc j)
    have rest: "tryReserve_results p (replicate (Suc j) u) s =
      Inr a # replicate j (Inr \<lparr>success = False,
        remainingStock = (case StockCounter p s' of None \<Rightarrow> JUndefined | Some c \<Rightarrow> JNumber (to_double c)),
        wasNewAttempt = False\<rparr>)"
      using run by (simp add: repeat_results [OF m])
    have "filter is_granted (replicate j (Inr \<lparr>success = False,
        remainingStock = (case StockCounter p s' of None \<Rightarrow> JUndefined | Some c \<Rightarrow> JNumber (to_double c)),
        wasNewAttempt = False\<rparr>)) = []"
      by (simp add: is_granted_def)
    with rest Suc run mem show ?thesis by auto
  qed
qed

section \<open>The orchestrator\<close>

lemma ttl_ok: "string2ll (int_to_string 86400) = Some 86400"
  by (rule string2ll_int_to_string) (simp_all add: LLONG_MIN_def LLONG_MAX_def)

lemma setUserResult_store:
  "setUserResult u p b s =
     (Inr (), s(result_key u p \<mapsto> RString (if b then ''1'' else ''0'') (Some 86400)))"
  by (simp add: setUserResult_def SET_USER_RESULT_SCRIPT_def redis_SETEX_def ttl_ok
      result_key_def Let_def)

lemma stockKeyExists_iff: "stockKeyExists p s \<longleftrightarrow> s (stock_key p) \<noteq> None"
  by (simp add: stockKeyExists_def redis_EXISTS_def stock_key_def split: option.splits)

lemma ensure_stock_eq:
  "ensure_stock p fs w =
     (Inr (),
      if stockKeyExists p (redis w) then called (Call_stockKeyExists p) w
      else called (Call_initializeStock p (sale_remainingStock fs))
             ((called (Call_stockKeyExists p) w)
                \<lparr>redis := (redis w)(stock_key p \<mapsto>
                    RString (int_to_string (sale_remainingStock fs)) None)\<rparr>))"
  by (simp add: ensure_stock_def initializeStock_store called_def)

lemma restoreStock_store:
  assumes "s (stock_key p) = Some (RString v t)" "string2ll v = Some n" "n < LLONG_MAX"
  shows "restoreStock p s =
     (Inr (JNumber (to_double (n + 1))), s(stock_key p \<mapsto> RString (int_to_string (n + 1)) t))"
proof -
  from assms(2) have "tonumber_str v = Some n" "LLONG_MIN \<le> n" by (simp_all add: string2ll_SomeD)
  with assms show ?thesis
    unfolding stock_key_def
    by (simp add: restoreStock_def RESTORE_STOCK_SCRIPT_def call_GET_def redis_GET_def
        bulk_to_lua_def lua_or_def lua_truthy_def lua_tonumber_def redis_INCR_def
        redis_INCRBY_def lua_to_js_def Let_def)
qed

text \<open>
  Whatever the store holds, the status that \<^verbatim>\<open>getUserStatus\<close> decodes says that a result
  exists and carries one.
\<close>

lemma getUserStatus_settled:
  assumes "getUserStatus u p s = (Inr st, s')"
  shows "hasResult st \<and> result st \<noteq> None \<and> s' = s"
  using assms
  by (auto simp: getUserStatus_def GET_USER_STATUS_SCRIPT_def Let_def call_GET_def
      redis_GET_def redis_SISMEMBER_def bulk_to_lua_def lua_or_def lua_and_def lua_truthy_def
      lua_tonumber_def table_reply_def js_at_def lua_to_js_def
      split: sum.splits option.splits rvalue.splits if_splits)

lemma sublist_mid: "sublist xs (ps @ xs @ ss)"
  unfolding sublist_def by blast

lemma sublist_end: "sublist xs (ps @ xs)"
  using sublist_mid [of xs ps "[]"] by simp

lemma not_found_message:
  "sublist ''not found'' (''Flash sale with ID '' @ x @ '' not found.'')"
proof -
  have "''Flash sale with ID '' @ x @ '' not found.'' =
        (''Flash sale with ID '' @ x @ '' '') @ ''not found'' @ ''.''"
    by simp
  then show ?thesis by (simp only: sublist_mid)
qed

lemma in_window:
  assumes "flash_sales w saleId = Some fs" "sale_startAt fs \<le> now e" "now e \<le> sale_endAt fs"
  shows "FlashSaleService_attemptPurchase e u saleId w =
     (case RedisService_attemptPurchase u (int_to_string (sale_productId fs))
             (redis (snd (ensure_stock (int_to_string (sale_productId fs)) fs w))) of
        (Inl err, s2) \<Rightarrow>
          (Inl err, called (Call_attemptPurchase u (int_to_string (sale_productId fs)))
             ((snd (ensure_stock (int_to_string (sale_productId fs)) fs w))\<lparr>redis := s2\<rparr>))
      | (Inr a, s2) \<Rightarrow>
          if \<not> wasNewAttempt a then
            already_attempted u (int_to_string (sale_productId fs))
              (called (Call_attemptPurchase u (int_to_string (sale_productId fs)))
                ((snd (ensure_stock (int_to_string (sale_productId fs)) fs w))\<lparr>redis := s2\<rparr>))
          else if \<not> success a then
            out_of_stock u (int_to_string (sale_productId fs))
              (called (Call_attemptPurchase u (int_to_string (sale_productId fs)))
                ((snd (ensure_stock (int_to_string (sale_productId fs)) fs w))\<lparr>redis := s2\<rparr>))
          else
            enqueue_attempt e u saleId (int_to_string (sale_productId fs))
              (called (Call_attemptPurchase u (int_to_string (sale_productId fs)))
                ((snd (ensure_stock (int_to_string (sale_productId fs)) fs w))\<lparr>redis := s2\<rparr>)))"
  using assms
  by (simp add: FlashSaleService_attemptPurchase_def ensure_stock_eq Let_def
      split: prod.splits sum.splits)

lemma already_attempted_calls:
  "calls (snd (already_attempted u p w)) = calls w @ [Call_getUserStatus u p]"
  by (simp add: already_attempted_def called_def Let_def split: prod.splits sum.splits)

lemma out_of_stock_eq:
  "out_of_stock u p w =
     (Inr \<lparr>ok = False, message = ''Sorry, the item is out of stock.''\<rparr>,
      called (Call_setUserResult u p False)
        (w\<lparr>redis := (redis w)(result_key u p \<mapsto> RString ''0'' (Some 86400))\<rparr>))"
  by (simp add: out_of_stock_def setUserResult_store)

lemma enqueue_attempt_calls:
  "set (calls w) \<subseteq> set (calls (snd (enqueue_attempt e u saleId p w)))"
  by (auto simp: enqueue_attempt_def called_def Let_def split: prod.splits sum.splits)

lemma attempt_called:
  assumes "flash_sales w saleId = Some fs" "sale_startAt fs \<le> now e" "now e \<le> sale_endAt fs"
  shows "Call_attemptPurchase u (int_to_string (sale_productId fs))
           \<in> set (calls (snd (FlashSaleService_attemptPurchase e u saleId w)))"
proof -
  let ?p = "int_to_string (sale_productId fs)"
  let ?w1 = "snd (ensure_stock ?p fs w)"
  obtain r s2 where run: "RedisService_attemptPurchase u ?p (redis ?w1) = (r, s2)"
    by (cases "RedisService_attemptPurchase u ?p (redis ?w1)")
  let ?w2 = "called (Call_attemptPurchase u ?p) (?w1\<lparr>redis := s2\<rparr>)"
  have in2: "Call_attemptPurchase u ?p \<in> set (calls ?w2)"
    by (simp add: called_def)
  show ?thesis
  proof (cases r)
    case (Inl err)
    with run in2 show ?thesis by (simp add: in_window [OF assms])
  next
    case (Inr a)
    from enqueue_attempt_calls [of ?w2 e u saleId ?p] in2
    have "Call_attemptPurchase u ?p \<in> set (calls (snd (enqueue_attempt e u saleId ?p ?w2)))"
      by blast
    with Inr run in2 show ?thesis
      by (simp add: in_window [OF assms] already_attempted_calls out_of_stock_eq called_def)
  qed
qed

text \<open>
  Claim C8. \<^verbatim>\<open>attemptPurchase\<close> returns a failure and the world as it found it (no method
  of the store called, nothing written) when no sale has the id (the message contains
  "not found"), when now is before the start (the message contains the start time), and
  when now is after the end (the message contains the end time; the start check comes
  first, so this needs that now is not also before the start, as it never is when the
  start is not after the end). At every time of the closed interval from start to end,
  its two ends included, the call goes on to \<^verbatim>\<open>tryReserve\<close>.
\<close>
theorem sale_window_gating:
  "(flash_sales w saleId = None \<longrightarrow>
      (\<exists>m. FlashSaleService_attemptPurchase e u saleId w = (Inr \<lparr>ok = False, message = m\<rparr>, w)
           \<and> sublist ''not found'' m))
   \<and> (\<forall>fs. flash_sales w saleId = Some fs \<and> now e < sale_startAt fs \<longrightarrow>
      (\<exists>m. FlashSaleService_attemptPurchase e u saleId w = (Inr \<lparr>ok = False, message = m\<rparr>, w)
           \<and> sublist (toISOString e (sale_startAt fs)) m))
   \<and> (\<forall>fs. flash_sales w saleId = Some fs \<and> sale_endAt fs < now e \<longrightarrow>
      (\<exists>m. FlashSaleService_attemptPurchase e u saleId w = (Inr \<lparr>ok = False, message = m\<rparr>, w)
           \<and> (sale_startAt fs \<le> now e \<longrightarrow> sublist (toISOString e (sale_endAt fs)) m)))
   \<and> (\<forall>fs. flash_sales w saleId = Some fs \<and> sale_startAt fs \<le> now e \<and> now e \<le> sale_endAt fs \<longrightarrow>
      Call_attemptPurchase u (int_to_string (sale_productId fs))
        \<in> set (calls (snd (FlashSaleService_attemptPurchase e u saleId w))))"
proof (intro conjI allI impI)
  assume "flash_sales w saleId = None"
  then have "FlashSaleService_attemptPurchase e u saleId w =
      (Inr \<lparr>ok = False,
            message = ''Flash sale with ID '' @ int_to_string saleId @ '' not found.''\<rparr>, w)"
    by (simp add: FlashSaleService_attemptPurchase_def)
  with not_found_message [of "int_to_string saleId"]
  show "\<exists>m. FlashSaleService_attemptPurchase e u saleId w = (Inr \<lparr>ok = False, message = m\<rparr>, w)
           \<and> sublist ''not found'' m"
    by blast
next
  fix fs assume "flash_sales w saleId = Some fs \<and> now e < sale_startAt fs"
  then have "FlashSaleService_attemptPurchase e u saleId w =
      (Inr \<lparr>ok = False,
            message = ''Flash sale is not yet active. Start time: ''
                        @ toISOString e (sale_startAt fs)\<rparr>, w)"
    by (simp add: FlashSaleService_attemptPurchase_def)
  with sublist_end [of "toISOString e (sale_startAt fs)" "''Flash sale is not yet active. Start time: ''"]
  show "\<exists>m. FlashSaleService_attemptPurchase e u saleId w = (Inr \<lparr>ok = False, message = m\<rparr>, w)
           \<and> sublist (toISOString e (sale_startAt fs)) m"
    by blast
next
  fix fs assume late: "flash_sales w saleId = Some fs \<and> sale_endAt fs < now e"
  show "\<exists>m. FlashSaleService_attemptPurchase e u saleId w = (Inr \<lparr>ok = False, message = m\<rparr>, w)
           \<and> (sale_startAt fs \<le> now e \<longrightarrow> sublist (toISOString e (sale_endAt fs)) m)"
  proof (cases "now e < sale_startAt fs")
    case True
    with late have "FlashSaleService_attemptPurchase e u saleId w =
        (Inr \<lparr>ok = False,
              message = ''Flash sale is not yet active. Start time: ''
                          @ toISOString e (sale_startAt fs)\<rparr>, w)"
      by (simp add: FlashSaleService_attemptPurchase_def)
    with True show ?thesis by auto
  next
    case False
    with late have "FlashSaleService_attemptPurchase e u saleId w =
        (Inr \<lparr>ok = False,
              message = ''Flash sale has ended. End time: ''
                          @ toISOString e (sale_endAt fs)\<rparr>, w)"
      by (simp add: FlashSaleService_attemptPurchase_def)
    with sublist_end [of "toISOString e (sale_endAt fs)" "''Flash sale has ended. End time: ''"]
    show ?thesis by blast
  qed
next
  fix fs assume "flash_sales w saleId = Some fs \<and> sale_startAt fs \<le> now e \<and> now e \<le> sale_endAt fs"
  then show "Call_attemptPurchase u (int_to_string (sale_productId fs))
        \<in> set (calls (snd (FlashSaleService_attemptPurchase e u saleId w)))"
    using attempt_called by blast
qed

lemma getUserResult_failed:
  "s (result_key u p) = Some (RString ''0'' t) \<Longrightarrow> getUserResult u p s = Inr (Some False)"
  unfolding result_key_def by (simp add: getUserResult_def redis_GET_def Let_def)

text \<open>
  Claim C7. Within the sale window, when \<^verbatim>\<open>tryReserve\<close> answers "not granted" on a first
  attempt, the orchestrator returns failure with the out-of-stock message, and before
  returning it writes the failed result: the result key of the user and product holds
  "0" with a time to live of 86400 seconds, \<^verbatim>\<open>getUserResult\<close> reads it as failed, and
  that write is the last call made to the store.
\<close>
theorem eager_failed_write:
  assumes "flash_sales w saleId = Some fs" "sale_startAt fs \<le> now e" "now e \<le> sale_endAt fs"
    and "RedisService_attemptPurchase u (int_to_string (sale_productId fs))
           (redis (snd (ensure_stock (int_to_string (sale_productId fs)) fs w))) = (Inr a, s2)"
    and "wasNewAttempt a" "\<not> success a"
  shows "fst (FlashSaleService_attemptPurchase e u saleId w) =
           Inr \<lparr>ok = False, message = ''Sorry, the item is out of stock.''\<rparr>
       \<and> redis (snd (FlashSaleService_attemptPurchase e u saleId w))
            (result_key u (int_to_string (sale_productId fs))) = Some (RString ''0'' (Some 86400))
       \<and> getUserResult u (int_to_string (sale_productId fs))
            (redis (snd (FlashSaleService_attemptPurchase e u saleId w))) = Inr (Some False)
       \<and> last (calls (snd (FlashSaleService_attemptPurchase e u saleId w))) =
            Call_setUserResult u (int_to_string (sale_productId fs)) False"
proof -
  let ?p = "int_to_string (sale_productId fs)"
  let ?w1 = "snd (ensure_stock ?p fs w)"
  let ?w2 = "called (Call_attemptPurchase u ?p) (?w1\<lparr>redis := s2\<rparr>)"
  have eq: "FlashSaleService_attemptPurchase e u saleId w = out_of_stock u ?p ?w2"
    using assms(4,5,6) by (simp add: in_window [OF assms(1,2,3)])
  have key: "redis (snd (out_of_stock u ?p ?w2)) (result_key u ?p) = Some (RString ''0'' (Some 86400))"
    by (simp add: out_of_stock_eq called_def)
  from getUserResult_failed [where s = "redis (snd (out_of_stock u ?p ?w2))" and u = u and p = ?p, OF key]
    key show ?thesis
    by (simp add: eq) (simp add: out_of_stock_eq called_def)
qed

lemma string2ll_canonical: "string2ll v = Some n \<Longrightarrow> int_to_string n = v"
  by (simp add: string2ll_SomeD)

text \<open>
  Claim C5. Within the sale window, when \<^verbatim>\<open>tryReserve\<close> grants (the counter goes from
  \<open>v\<close> to \<open>v - 1\<close>) and the publish throws, the orchestrator returns failure with the
  message of a transient failure; the counter is \<open>v\<close> again, the stock key holds what it
  held before the reservation, the user is still in the attempted set, and the last call
  made to the store is \<^verbatim>\<open>restoreStock\<close>.
\<close>
theorem rollback_restores_stock:
  assumes "flash_sales w saleId = Some fs" "sale_startAt fs \<le> now e" "now e \<le> sale_endAt fs"
    and run: "RedisService_attemptPurchase u (int_to_string (sale_productId fs))
           (redis (snd (ensure_stock (int_to_string (sale_productId fs)) fs w))) = (Inr a, s2)"
    and granted: "success a" and down: "\<not> publish_ok e"
  shows "fst (FlashSaleService_attemptPurchase e u saleId w) =
           Inr \<lparr>ok = False, message = ''Failed to process your request. Please try again.''\<rparr>
       \<and> (\<exists>v. StockCounter (int_to_string (sale_productId fs))
                 (redis (snd (ensure_stock (int_to_string (sale_productId fs)) fs w))) = Some v
              \<and> StockCounter (int_to_string (sale_productId fs)) s2 = Some (v - 1)
              \<and> StockCounter (int_to_string (sale_productId fs))
                   (redis (snd (FlashSaleService_attemptPurchase e u saleId w))) = Some v)
       \<and> redis (snd (FlashSaleService_attemptPurchase e u saleId w))
              (stock_key (int_to_string (sale_productId fs))) =
           redis (snd (ensure_stock (int_to_string (sale_productId fs)) fs w))
              (stock_key (int_to_string (sale_productId fs)))
       \<and> u \<in> AttemptedSet (int_to_string (sale_productId fs))
              (redis (snd (FlashSaleService_attemptPurchase e u saleId w)))
       \<and> last (calls (snd (FlashSaleService_attemptPurchase e u saleId w))) =
            Call_restoreStock (int_to_string (sale_productId fs))"
proof -
  let ?p = "int_to_string (sale_productId fs)"
  let ?w1 = "snd (ensure_stock ?p fs w)"
  let ?s1 = "redis ?w1"
  let ?w2 = "called (Call_attemptPurchase u ?p) (?w1\<lparr>redis := s2\<rparr>)"
  from run obtain c v t where
        sk: "?s1 (stock_key ?p) = Some (RString v t)" and ll: "string2ll v = Some c" and pos: "0 < c"
    and a: "a = \<lparr>success = True, remainingStock = JNumber (to_double (c - 1)), wasNewAttempt = True\<rparr>"
    and s2: "s2 = ?s1(stock_key ?p \<mapsto> RString (int_to_string (c - 1)) t,
                     attempted_key ?p \<mapsto> RSet (insert u (AttemptedSet ?p ?s1)))"
    using granted by (cases rule: reserve_cases) auto
  from ll have rng: "LLONG_MIN \<le> c" "c \<le> LLONG_MAX" and tn: "tonumber_str v = Some c"
    and canon: "int_to_string c = v"
    by (simp_all add: string2ll_SomeD)
  have ll2: "string2ll (int_to_string (c - 1)) = Some (c - 1)"
    using rng pos by (intro string2ll_int_to_string) (simp_all add: LLONG_MIN_def)
  have s2k: "s2 (stock_key ?p) = Some (RString (int_to_string (c - 1)) t)"
    by (simp add: s2)
  have lt: "c - 1 < LLONG_MAX" using rng by simp
  have rs: "restoreStock ?p s2 =
      (Inr (JNumber (to_double c)), s2(stock_key ?p \<mapsto> RString (int_to_string c) t))"
    using restoreStock_store [where s = s2 and p = ?p, OF s2k ll2 lt] by simp
  have eq: "FlashSaleService_attemptPurchase e u saleId w = enqueue_attempt e u saleId ?p ?w2"
    using run a by (simp add: in_window [OF assms(1,2,3)])
  have en: "enqueue_attempt e u saleId ?p ?w2 =
      (Inr \<lparr>ok = False, message = ''Failed to process your request. Please try again.''\<rparr>,
       called (Call_restoreStock ?p)
         ((if audit_ok e
           then ?w2\<lparr>purchase_attempts := purchase_attempts ?w2 @
                  [\<lparr>att_userId = u, att_productId = ?p,
                    att_saleId = Some (int_to_string saleId), att_timestamp = stamp e\<rparr>]\<rparr>
           else ?w2)\<lparr>redis := s2(stock_key ?p \<mapsto> RString (int_to_string c) t)\<rparr>))"
    using down rs by (simp add: enqueue_attempt_def Let_def called_def)
  have final: "redis (snd (FlashSaleService_attemptPurchase e u saleId w)) =
      s2(stock_key ?p \<mapsto> RString (int_to_string c) t)"
    unfolding eq en by (simp add: called_def)
  have c1: "StockCounter ?p ?s1 = Some c" using sk tn by (simp add: StockCounter_def)
  have c2: "StockCounter ?p s2 = Some (c - 1)" by (simp add: s2)
  have c3: "StockCounter ?p (redis (snd (FlashSaleService_attemptPurchase e u saleId w))) = Some c"
    by (simp add: final)
  have k: "redis (snd (FlashSaleService_attemptPurchase e u saleId w)) (stock_key ?p) = ?s1 (stock_key ?p)"
    by (simp add: final sk canon)
  have m: "u \<in> AttemptedSet ?p (redis (snd (FlashSaleService_attemptPurchase e u saleId w)))"
    by (simp add: final s2)
  have l: "last (calls (snd (FlashSaleService_attemptPurchase e u saleId w))) = Call_restoreStock ?p"
    unfolding eq en by (simp add: called_def)
  have f: "fst (FlashSaleService_attemptPurchase e u saleId w) =
           Inr \<lparr>ok = False, message = ''Failed to process your request. Please try again.''\<rparr>"
    unfolding eq en by simp
  from f c1 c2 c3 k m l show ?thesis by blast
qed

section \<open>The finalizer\<close>

lemma worker_setUserResult_eq:
  "worker_setUserResult u p b w =
     (Inr (), called (Call_setUserResult u p b)
        (w\<lparr>redis := (redis w)(result_key u p \<mapsto> RString (if b then ''1'' else ''0'') (Some 86400))\<rparr>))"
  by (simp add: worker_setUserResult_def setUserResult_store)

lemma worker_setUserResult_orders [simp]:
  "orders (snd (worker_setUserResult u p b w)) = orders w"
  by (simp add: worker_setUserResult_eq called_def)


lemma attempt_catch_orders [simp]:
  "orders (snd (attempt_catch a sid err w)) = orders w"
  by (simp add: attempt_catch_def worker_setUserResult_eq called_def Let_def
      split: sum.splits option.splits)














section \<open>The key-space layout\<close>

lemma store_cases:
  obtains (absent) "(s :: store) k = None"
  | (str) v t where "s k = Some (RString v t)"
  | (set) m where "s k = Some (RSet m)"
  by (cases "s k"; cases "the (s k)") auto

lemmas redis_defs =
  redis_SISMEMBER_def redis_SADD_def redis_DECR_def redis_INCR_def redis_INCRBY_def
  call_GET_def redis_GET_def bulk_to_lua_def lua_or_def lua_truthy_def lua_tonumber_def
  tonumber_zero

lemma script_reads:
  assumes sk: "s2 sk = s sk" and ak: "s2 ak = s ak" and ne: "sk \<noteq> ak"
  shows "fst (ATTEMPT_PURCHASE_SCRIPT sk ak u s2) = fst (ATTEMPT_PURCHASE_SCRIPT sk ak u s)"
proof (cases s ak rule: store_cases)
  case (str v t)
  with ak show ?thesis by (simp add: ATTEMPT_PURCHASE_SCRIPT_def redis_defs)
next
  case absent
  with ak have ak2: "s2 ak = None" by simp
  show ?thesis
  proof (cases s sk rule: store_cases)
    case absent': absent
    with sk have "s2 sk = None" by simp
    with absent absent' ak2 show ?thesis
      by (simp add: ATTEMPT_PURCHASE_SCRIPT_def redis_defs)
  next
    case (set m)
    with sk have "s2 sk = Some (RSet m)" by simp
    with absent set ak2 show ?thesis
      by (simp add: ATTEMPT_PURCHASE_SCRIPT_def redis_defs)
  next
    case (str v t)
    with sk have "s2 sk = Some (RString v t)" by simp
    with absent str ak2 ne show ?thesis
      by (simp add: ATTEMPT_PURCHASE_SCRIPT_def redis_defs split: option.splits)
  qed
next
  case (set m)
  with ak have ak2: "s2 ak = Some (RSet m)" by simp
  show ?thesis
  proof (cases s sk rule: store_cases)
    case absent
    with sk have "s2 sk = None" by simp
    with absent set ak2 show ?thesis
      by (simp add: ATTEMPT_PURCHASE_SCRIPT_def redis_defs)
  next
    case set': (set m')
    with sk have "s2 sk = Some (RSet m')" by simp
    with set set' ak2 show ?thesis
      by (simp add: ATTEMPT_PURCHASE_SCRIPT_def redis_defs)
  next
    case (str v t)
    with sk have "s2 sk = Some (RString v t)" by simp
    with set str ak2 ne show ?thesis
      by (simp add: ATTEMPT_PURCHASE_SCRIPT_def redis_defs split: option.splits)
  qed
qed

lemma layout_write_refl: "layout_write u p s s"
  by (simp add: layout_write_def)

lemma layout_write_stock:
  "layout_write u p s (s(stock_key p \<mapsto> RString (int_to_string n) t))"
  by (auto simp: layout_write_def)

lemma layout_write_attempted:
  "layout_write u p s (s(attempted_key p \<mapsto> RSet (insert u (AttemptedSet p s))))"
  by (simp add: layout_write_def)

lemma layout_write_result:
  "layout_write u p s (s(result_key u p \<mapsto> RString (if b then ''1'' else ''0'') (Some 86400)))"
  by (simp add: layout_write_def)

lemma attemptPurchase_writes: "layout_write u p s (snd (RedisService_attemptPurchase u p s))"
proof -
  obtain r s' where run: "RedisService_attemptPurchase u p s = (r, s')"
    by (cases "RedisService_attemptPurchase u p s")
  from run have "layout_write u p s s'"
    by (cases rule: reserve_cases) (auto simp: layout_write_def)
  with run show ?thesis by simp
qed

lemma incrby_writes:
  "redis_INCRBY s (stock_key p) d = Inr (n, s') \<Longrightarrow> layout_write u p s s'"
  by (auto simp: redis_INCRBY_def layout_write_def split: option.splits rvalue.splits if_splits)

lemma decrementStock_keys:
  "decrementStock p s =
     (case redis_DECR s (stock_key p) of
        Inl e \<Rightarrow> (Inl e, s)
      | Inr (n, s1) \<Rightarrow> (Inr (to_double n), s1))"
  by (simp add: decrementStock_def stock_key_def Let_def)

lemma incrementStock_keys:
  "incrementStock p s =
     (case redis_INCR s (stock_key p) of
        Inl e \<Rightarrow> (Inl e, s)
      | Inr (n, s1) \<Rightarrow> (Inr (to_double n), s1))"
  by (simp add: incrementStock_def stock_key_def Let_def)

lemma restoreStock_keys:
  "restoreStock p s =
     (case RESTORE_STOCK_SCRIPT (stock_key p) s of
        (Inl e, s1) \<Rightarrow> (Inl e, s1)
      | (Inr v, s1) \<Rightarrow> (Inr (lua_to_js v), s1))"
  by (simp add: restoreStock_def stock_key_def Let_def)

lemma decrementStock_writes: "layout_write u p s (snd (decrementStock p s))"
  by (cases "redis_INCRBY s (stock_key p) (- 1)")
     (auto simp: decrementStock_keys redis_DECR_def layout_write_refl dest: incrby_writes)

lemma incrementStock_writes: "layout_write u p s (snd (incrementStock p s))"
  by (cases "redis_INCRBY s (stock_key p) 1")
     (auto simp: incrementStock_keys redis_INCR_def layout_write_refl dest: incrby_writes)

lemma restoreStock_writes: "layout_write u p s (snd (restoreStock p s))"
  by (cases "redis_INCRBY s (stock_key p) 1"; cases "call_GET s (stock_key p)")
     (auto simp: restoreStock_keys RESTORE_STOCK_SCRIPT_def redis_INCR_def layout_write_refl Let_def
        split: lua.splits dest: incrby_writes)

lemma initializeStock_writes: "layout_write u p s (snd (initializeStock p n s))"
  by (simp add: initializeStock_store layout_write_stock)

lemma addUserToAttemptedSet_writes: "layout_write u p s (snd (addUserToAttemptedSet u p s))"
  unfolding addUserToAttemptedSet_def Let_def attempted_key_def [symmetric]
  by (cases s "attempted_key p" rule: store_cases)
     (simp_all add: redis_SADD_def layout_write_def AttemptedSet_def)

lemma getUserStatus_store: "snd (getUserStatus u p s) = s"
  by (simp add: getUserStatus_def GET_USER_STATUS_SCRIPT_def Let_def
      split: sum.splits prod.splits)

lemma setUserResult_writes: "layout_write u p s (snd (setUserResult u p b s))"
  by (simp add: setUserResult_store layout_write_result)

lemma attemptPurchase_reads:
  assumes "layout_agree u p s s2"
  shows "fst (RedisService_attemptPurchase u p s2) = fst (RedisService_attemptPurchase u p s)"
proof -
  have f: "fst (RedisService_attemptPurchase u p x) =
      (case fst (ATTEMPT_PURCHASE_SCRIPT (stock_key p) (attempted_key p) u x) of
         Inl e \<Rightarrow> Inl e
       | Inr t \<Rightarrow> Inr \<lparr>success = (js_at (table_reply t) 0 = JNumber 1),
                       remainingStock = js_at (table_reply t) 1,
                       wasNewAttempt = (js_at (table_reply t) 2 = JNumber 1)\<rparr>)" for x
    by (simp add: RedisService_attemptPurchase_keys split: prod.splits sum.splits)
  from assms have "s2 (stock_key p) = s (stock_key p)" "s2 (attempted_key p) = s (attempted_key p)"
    by (simp_all add: layout_agree_def)
  from script_reads [of s2 "stock_key p" s "attempted_key p" u, OF this]
  show ?thesis by (simp add: f)
qed

lemma incrby_reads:
  assumes "s2 k = s k"
  shows "(case redis_INCRBY s2 k d of Inl e \<Rightarrow> Inl e | Inr (n, s1) \<Rightarrow> Inr n) =
         (case redis_INCRBY s k d of Inl e \<Rightarrow> Inl e | Inr (n, s1) \<Rightarrow> Inr n)"
  using assms by (cases s k rule: store_cases) (simp_all add: redis_INCRBY_def split: option.splits)

lemma decrementStock_reads:
  assumes "layout_agree u p s s2"
  shows "fst (decrementStock p s2) = fst (decrementStock p s)"
proof -
  have f: "fst (decrementStock p x) =
      (case (case redis_INCRBY x (stock_key p) (- 1) of Inl e \<Rightarrow> Inl e | Inr (n, s1) \<Rightarrow> Inr n) of
         Inl e \<Rightarrow> Inl e
       | Inr n \<Rightarrow> Inr (to_double n))" for x
    by (simp add: decrementStock_keys redis_DECR_def split: prod.splits sum.splits)
  from assms have k: "s2 (stock_key p) = s (stock_key p)" by (simp add: layout_agree_def)
  show ?thesis
    by (simp only: f incrby_reads [of s2 "stock_key p" s "- 1", OF k])
qed

lemma incrementStock_reads:
  assumes "layout_agree u p s s2"
  shows "fst (incrementStock p s2) = fst (incrementStock p s)"
proof -
  have f: "fst (incrementStock p x) =
      (case (case redis_INCRBY x (stock_key p) 1 of Inl e \<Rightarrow> Inl e | Inr (n, s1) \<Rightarrow> Inr n) of
         Inl e \<Rightarrow> Inl e
       | Inr n \<Rightarrow> Inr (to_double n))" for x
    by (simp add: incrementStock_keys redis_INCR_def split: prod.splits sum.splits)
  from assms have k: "s2 (stock_key p) = s (stock_key p)" by (simp add: layout_agree_def)
  show ?thesis
    by (simp only: f incrby_reads [of s2 "stock_key p" s 1, OF k])
qed

lemma restoreStock_reads:
  assumes "layout_agree u p s s2"
  shows "fst (restoreStock p s2) = fst (restoreStock p s)"
proof -
  from assms have k: "s2 (stock_key p) = s (stock_key p)" by (simp add: layout_agree_def)
  then have g: "call_GET s2 (stock_key p) = call_GET s (stock_key p)"
    by (simp add: call_GET_def redis_GET_def)
  have f: "fst (restoreStock p x) =
      (case call_GET x (stock_key p) of
         Inl e \<Rightarrow> Inl e
       | Inr g \<Rightarrow>
          (case (case redis_INCRBY x (stock_key p) 1 of Inl e \<Rightarrow> Inl e | Inr (n, s1) \<Rightarrow> Inr n) of
             Inl e \<Rightarrow> Inl e
           | Inr newStock \<Rightarrow>
               (case lua_tonumber (lua_or g (LString ''0'')) of
                  LNumber old \<Rightarrow> Inr (JNumber (to_double newStock))
                | _ \<Rightarrow> Inl LUA_ERROR)))" for x
    by (simp add: restoreStock_keys RESTORE_STOCK_SCRIPT_def redis_INCR_def Let_def lua_to_js_def
        split: prod.splits sum.splits lua.splits)
  show ?thesis
    by (simp only: f g incrby_reads [of s2 "stock_key p" s 1, OF k])
qed

lemma getStock_reads:
  "layout_agree u p s s2 \<Longrightarrow> getStock p s2 = getStock p s"
  unfolding layout_agree_def stock_key_def
  by (simp add: getStock_def redis_GET_def Let_def)

lemma stockKeyExists_reads:
  "layout_agree u p s s2 \<Longrightarrow> stockKeyExists p s2 = stockKeyExists p s"
  by (simp add: stockKeyExists_iff layout_agree_def)

lemma addUserToAttemptedSet_reads:
  assumes "layout_agree u p s s2"
  shows "fst (addUserToAttemptedSet u p s2) = fst (addUserToAttemptedSet u p s)"
proof -
  from assms have k: "s2 (attempted_key p) = s (attempted_key p)" by (simp add: layout_agree_def)
  show ?thesis
    unfolding addUserToAttemptedSet_def Let_def attempted_key_def [symmetric]
    using k by (cases s "attempted_key p" rule: store_cases) (simp_all add: redis_SADD_def)
qed

lemma isUserInAttemptedSet_reads:
  "layout_agree u p s s2 \<Longrightarrow> isUserInAttemptedSet u p s2 = isUserInAttemptedSet u p s"
  unfolding layout_agree_def attempted_key_def
  by (simp add: isUserInAttemptedSet_def redis_SISMEMBER_def Let_def)

lemma getUserStatus_reads:
  assumes "layout_agree u p s s2"
  shows "fst (getUserStatus u p s2) = fst (getUserStatus u p s)"
proof -
  from assms have "s2 (''flashsale:attempted:'' @ p) = s (''flashsale:attempted:'' @ p)"
    "s2 (''flashsale:result:'' @ u @ '':'' @ p) = s (''flashsale:result:'' @ u @ '':'' @ p)"
    by (simp_all add: layout_agree_def attempted_key_def result_key_def)
  then have "redis_SISMEMBER s2 (''flashsale:attempted:'' @ p) u =
             redis_SISMEMBER s (''flashsale:attempted:'' @ p) u"
    "call_GET s2 (''flashsale:result:'' @ u @ '':'' @ p) =
     call_GET s (''flashsale:result:'' @ u @ '':'' @ p)"
    by (simp_all add: redis_SISMEMBER_def call_GET_def redis_GET_def)
  then show ?thesis
    by (simp add: getUserStatus_def GET_USER_STATUS_SCRIPT_def Let_def
        split: sum.splits prod.splits)
qed

lemma getUserResult_reads:
  "layout_agree u p s s2 \<Longrightarrow> getUserResult u p s2 = getUserResult u p s"
  unfolding layout_agree_def result_key_def
  by (simp add: getUserResult_def redis_GET_def Let_def)

lemma setUserResult_reads:
  "fst (setUserResult u p b s2) = fst (setUserResult u p b s)"
  by (simp add: setUserResult_store)

lemma initializeStock_reads:
  "fst (initializeStock p n s2) = fst (initializeStock p n s)"
  by (simp add: initializeStock_store)

text \<open>
  Claim C9. Every method of \<^verbatim>\<open>RedisService\<close> keeps to the key-space layout of section 6.
  Whatever a method writes is an integer string at the stock key of the product, the
  attempted set with the user added at the attempted key, or "1" or "0" with a time to
  live of 86400 seconds at the result key of the user and product; what a method returns
  is the same on two stores that agree on these three keys. Spelled out with the key
  strings: \<^verbatim>\<open>setUserResult\<close> stores "1" for success and "0" for failure, for 86400 seconds,
  at \<^verbatim>\<open>flashsale:result:{userId}:{productId}\<close>; \<^verbatim>\<open>initializeStock\<close> stores the decimal
  string of the stock at \<^verbatim>\<open>flashsale:stock:{productId}\<close>; a reservation that returns
  leaves a set that holds the user at \<^verbatim>\<open>flashsale:attempted:{productId}\<close>. What
  \<^verbatim>\<open>initializeStock\<close> writes is stated for a stock of magnitude up to \<open>2 ^ 53\<close>: the
  stock passes through a number of JavaScript and one of Lua on its way into the store.
\<close>
theorem key_space_layout:
  "layout_write u p s (snd (RedisService_attemptPurchase u p s))
   \<and> layout_write u p s (snd (decrementStock p s))
   \<and> layout_write u p s (snd (incrementStock p s))
   \<and> layout_write u p s (snd (restoreStock p s))
   \<and> (\<bar>n\<bar> \<le> 2 ^ 53 \<longrightarrow> layout_write u p s (snd (initializeStock p n s)))
   \<and> layout_write u p s (snd (addUserToAttemptedSet u p s))
   \<and> layout_write u p s (snd (getUserStatus u p s))
   \<and> layout_write u p s (snd (setUserResult u p b s))
   \<and> (layout_agree u p s s2 \<longrightarrow>
        fst (RedisService_attemptPurchase u p s2) = fst (RedisService_attemptPurchase u p s)
      \<and> fst (decrementStock p s2) = fst (decrementStock p s)
      \<and> fst (incrementStock p s2) = fst (incrementStock p s)
      \<and> fst (restoreStock p s2) = fst (restoreStock p s)
      \<and> getStock p s2 = getStock p s
      \<and> stockKeyExists p s2 = stockKeyExists p s
      \<and> fst (initializeStock p n s2) = fst (initializeStock p n s)
      \<and> fst (addUserToAttemptedSet u p s2) = fst (addUserToAttemptedSet u p s)
      \<and> isUserInAttemptedSet u p s2 = isUserInAttemptedSet u p s
      \<and> fst (getUserStatus u p s2) = fst (getUserStatus u p s)
      \<and> fst (setUserResult u p b s2) = fst (setUserResult u p b s)
      \<and> getUserResult u p s2 = getUserResult u p s)
   \<and> snd (setUserResult u p b s) (''flashsale:result:'' @ u @ '':'' @ p) =
        Some (RString (if b then ''1'' else ''0'') (Some 86400))
   \<and> (\<bar>n\<bar> \<le> 2 ^ 53 \<longrightarrow>
        snd (initializeStock p n s) (''flashsale:stock:'' @ p) =
          Some (RString (int_to_string n) None))
   \<and> (\<forall>a. fst (RedisService_attemptPurchase u p s) = Inr a \<longrightarrow>
        (\<exists>m. snd (RedisService_attemptPurchase u p s) (''flashsale:attempted:'' @ p) =
               Some (RSet m) \<and> u \<in> m))"
proof -
  have writes: "layout_write u p s (snd (RedisService_attemptPurchase u p s))
   \<and> layout_write u p s (snd (decrementStock p s))
   \<and> layout_write u p s (snd (incrementStock p s))
   \<and> layout_write u p s (snd (restoreStock p s))
   \<and> layout_write u p s (snd (initializeStock p n s))
   \<and> layout_write u p s (snd (addUserToAttemptedSet u p s))
   \<and> layout_write u p s (snd (getUserStatus u p s))
   \<and> layout_write u p s (snd (setUserResult u p b s))"
    by (simp add: attemptPurchase_writes decrementStock_writes incrementStock_writes
        restoreStock_writes initializeStock_writes addUserToAttemptedSet_writes
        getUserStatus_store layout_write_refl setUserResult_writes)
  have reads: "layout_agree u p s s2 \<longrightarrow>
        fst (RedisService_attemptPurchase u p s2) = fst (RedisService_attemptPurchase u p s)
      \<and> fst (decrementStock p s2) = fst (decrementStock p s)
      \<and> fst (incrementStock p s2) = fst (incrementStock p s)
      \<and> fst (restoreStock p s2) = fst (restoreStock p s)
      \<and> getStock p s2 = getStock p s
      \<and> stockKeyExists p s2 = stockKeyExists p s
      \<and> fst (initializeStock p n s2) = fst (initializeStock p n s)
      \<and> fst (addUserToAttemptedSet u p s2) = fst (addUserToAttemptedSet u p s)
      \<and> isUserInAttemptedSet u p s2 = isUserInAttemptedSet u p s
      \<and> fst (getUserStatus u p s2) = fst (getUserStatus u p s)
      \<and> fst (setUserResult u p b s2) = fst (setUserResult u p b s)
      \<and> getUserResult u p s2 = getUserResult u p s"
    using attemptPurchase_reads [of u p s s2] decrementStock_reads [of u p s s2]
      incrementStock_reads [of u p s s2] restoreStock_reads [of u p s s2]
      getStock_reads [of u p s s2] stockKeyExists_reads [of u p s s2]
      initializeStock_reads [of p n s2 s] addUserToAttemptedSet_reads [of u p s s2]
      isUserInAttemptedSet_reads [of u p s s2] getUserStatus_reads [of u p s s2]
      setUserResult_reads [of u p b s2 s] getUserResult_reads [of u p s s2]
    by blast
  have r: "snd (setUserResult u p b s) (''flashsale:result:'' @ u @ '':'' @ p) =
        Some (RString (if b then ''1'' else ''0'') (Some 86400))"
    by (simp add: setUserResult_store result_key_def)
  have i: "snd (initializeStock p n s) (''flashsale:stock:'' @ p) =
        Some (RString (int_to_string n) None)"
    by (simp add: initializeStock_store stock_key_def)
  have m: "\<forall>a. fst (RedisService_attemptPurchase u p s) = Inr a \<longrightarrow>
        (\<exists>m. snd (RedisService_attemptPurchase u p s) (''flashsale:attempted:'' @ p) =
               Some (RSet m) \<and> u \<in> m)"
  proof (intro allI impI)
    fix a assume "fst (RedisService_attemptPurchase u p s) = Inr a"
    then obtain s' where run: "RedisService_attemptPurchase u p s = (Inr a, s')"
      by (cases "RedisService_attemptPurchase u p s") simp
    from first_call_marks(1) [OF run] run
    show "\<exists>m. snd (RedisService_attemptPurchase u p s) (''flashsale:attempted:'' @ p) =
               Some (RSet m) \<and> u \<in> m"
      by (simp add: attempted_key_def)
  qed
  from writes reads r i m show ?thesis by blast
qed

section \<open>The claims at concrete states\<close>

lemmas decimal_eval =
  int_to_string_def nat_digits.simps digit_char_def string2ll_def tonumber_str_def
  parse_nat_def digit_val_def digit_table_def LLONG_MIN_def LLONG_MAX_def to_double_exact

lemma shop_ok: "store_ok ''1'' shop"
  by (simp add: store_ok_def shop_def stock_key_def attempted_key_def decimal_eval)

lemma shop_counter: "StockCounter ''1'' shop = Some 2"
  by (simp add: StockCounter_def shop_def stock_key_def decimal_eval)

theorem tryReserve_four_steps_witness:
  "store_ok ''1'' shop \<and> StockCounter ''1'' shop = Some 2 \<and> \<bar>2 :: int\<bar> \<le> 2 ^ 53 \<and>
   (\<exists>r c'.
           fst (RedisService_attemptPurchase ''7'' ''1'' shop) =
             Inr \<lparr>success = granted r, remainingStock = JNumber (remaining r),
                  wasNewAttempt = firstAttempt r\<rparr>
         \<and> StockCounter ''1'' (snd (RedisService_attemptPurchase ''7'' ''1'' shop)) = Some c'
         \<and> tryReserve_spec ''7'' 2 (AttemptedSet ''1'' shop) r c'
              (AttemptedSet ''1'' (snd (RedisService_attemptPurchase ''7'' ''1'' shop))))"
proof -
  have small: "\<bar>2 :: int\<bar> \<le> 2 ^ 53" by simp
  from tryReserve_four_steps [OF shop_ok shop_counter small, of "''7''"] shop_ok shop_counter small
  show ?thesis by blast
qed

lemma shop_repeat:
  "RedisService_attemptPurchase ''41'' ''1'' shop =
     (Inr \<lparr>success = False, remainingStock = JNumber 2, wasNewAttempt = False\<rparr>, shop)"
  by (simp add: RedisService_attemptPurchase_def ATTEMPT_PURCHASE_SCRIPT_def redis_SISMEMBER_def
      call_GET_def redis_GET_def bulk_to_lua_def lua_or_def lua_truthy_def lua_tonumber_def
      table_reply_def js_at_def lua_to_js_def shop_def decimal_eval)

lemma shop_grant:
  "RedisService_attemptPurchase ''7'' ''1'' shop =
     (Inr \<lparr>success = True, remainingStock = JNumber 1, wasNewAttempt = True\<rparr>,
      shop(''flashsale:stock:1'' \<mapsto> RString ''1'' None,
           ''flashsale:attempted:1'' \<mapsto> RSet {''7'', ''41''}))"
  by (simp add: script_defs RedisService_attemptPurchase_def shop_def decimal_eval AttemptedSet_def attempted_key_def stock_key_def)

theorem denied_frame_witness:
  "RedisService_attemptPurchase ''41'' ''1'' shop =
     (Inr \<lparr>success = False, remainingStock = JNumber 2, wasNewAttempt = False\<rparr>, shop)
   \<and> \<not> success \<lparr>success = False, remainingStock = JNumber 2, wasNewAttempt = False\<rparr>
   \<and> fst (RedisService_attemptPurchase ''41'' ''1''
             (shop(result_key ''41'' ''1'' \<mapsto> RString ''1'' (Some 86400)))) =
         Inr \<lparr>success = False, remainingStock = JNumber 2, wasNewAttempt = False\<rparr>"
proof -
  let ?a = "\<lparr>success = False, remainingStock = JNumber 2, wasNewAttempt = False\<rparr>"
  let ?s2 = "shop(result_key ''41'' ''1'' \<mapsto> RString ''1'' (Some 86400))"
  have d: "\<not> success ?a"
    by simp
  have same: "?s2 (stock_key ''1'') = shop (stock_key ''1'')
      \<and> ?s2 (attempted_key ''1'') = shop (attempted_key ''1'')"
    by simp
  from denied_frame [OF shop_repeat d]
  have "\<forall>s2. s2 (stock_key ''1'') = shop (stock_key ''1'')
            \<and> s2 (attempted_key ''1'') = shop (attempted_key ''1'')
        \<longrightarrow> fst (RedisService_attemptPurchase ''41'' ''1'' s2) = Inr ?a"
    by blast
  with same have "fst (RedisService_attemptPurchase ''41'' ''1'' ?s2) = Inr ?a"
    by blast
  with shop_repeat d show ?thesis by blast
qed

theorem no_overselling_witness:
  "(0::int) \<le> 2
   \<and> int (length (filter is_granted
        (tryReserve_results ''1'' [''7'', ''8'', ''9''] (snd (initializeStock ''1'' 2 Map.empty))))) \<le> 2"
  using no_overselling [of 2 "''1''" "[''7'', ''8'', ''9'']" Map.empty] by simp

theorem one_grant_per_user_witness:
  "fst (RedisService_attemptPurchase ''7'' ''1'' shop) =
     Inr \<lparr>success = True, remainingStock = JNumber 1, wasNewAttempt = True\<rparr>
   \<and> length (filter is_granted (tryReserve_results ''1'' (replicate 3 ''7'') shop)) \<le> 1
   \<and> ''7'' \<in> AttemptedSet ''1'' (snd (RedisService_attemptPurchase ''7'' ''1'' shop))"
proof -
  have f: "fst (RedisService_attemptPurchase ''7'' ''1'' shop) =
     Inr \<lparr>success = True, remainingStock = JNumber 1, wasNewAttempt = True\<rparr>"
    by (simp add: shop_grant)
  from one_grant_per_user [of "''1''" 3 "''7''" shop] f show ?thesis by blast
qed

lemma demo_product: "int_to_string (sale_productId demo_sale) = ''1''"
  by (simp add: demo_sale_def decimal_eval)

lemma demo_found: "flash_sales demo_world 1 = Some demo_sale"
  by (simp add: demo_world_def)

lemma demo_window: "sale_startAt demo_sale \<le> now demo_env" "now demo_env \<le> sale_endAt demo_sale"
  by (simp_all add: demo_sale_def demo_env_def)

lemma demo_ensure:
  "snd (ensure_stock ''1'' demo_sale demo_world) = called (Call_stockKeyExists ''1'') demo_world"
  by (simp add: ensure_stock_eq stockKeyExists_iff demo_world_def shop_def stock_key_def called_def)

text \<open>
  The branch of a repeat attempt on any world: it never answers with the pending message,
  and it surfaces a result entry that holds "1" or "0".
\<close>

lemma already_attempted_settled:
  "fst (already_attempted u p w) \<noteq>
     Inr \<lparr>ok = False,
          message = ''Your purchase attempt is being processed. Please check back shortly.''\<rparr>"
proof (cases "getUserStatus u p (redis w)")
  case (Pair r s')
  show ?thesis
  proof (cases r)
    case (Inl e)
    with Pair show ?thesis by (simp add: already_attempted_def)
  next
    case (Inr st)
    with Pair getUserStatus_settled [of u p "redis w" st s']
    show ?thesis by (auto simp: already_attempted_def Let_def)
  qed
qed

lemma already_attempted_surfaces:
  assumes "redis w (result_key u p) = Some (RString v t)" "v = ''1'' \<or> v = ''0''"
    and "\<forall>x t'. redis w (attempted_key p) \<noteq> Some (RString x t')"
  shows "fst (already_attempted u p w) =
     Inr \<lparr>ok = (v = ''1''),
          message = (if v = ''1'' then ''You have successfully secured an item!''
                     else ''Your purchase attempt was unsuccessful.'')\<rparr>"
proof -
  from assms(3) have sis: "\<exists>n. redis_SISMEMBER (redis w) (''flashsale:attempted:'' @ p) u = Inr n"
    by (cases "redis w" "attempted_key p" rule: store_cases)
       (simp_all add: redis_SISMEMBER_def attempted_key_def)
  from assms(1) have g: "call_GET (redis w) (''flashsale:result:'' @ u @ '':'' @ p) = Inr (LString v)"
    by (simp add: call_GET_def redis_GET_def bulk_to_lua_def result_key_def)
  from assms(2) have tn: "tonumber_str v = Some (if v = ''1'' then 1 else 0)"
    by (auto simp: tonumber_str_def parse_nat_def digit_val_def digit_table_def)
  from sis obtain n where "redis_SISMEMBER (redis w) (''flashsale:attempted:'' @ p) u = Inr n"
    by blast
  with g tn show ?thesis
    by (simp add: already_attempted_def getUserStatus_def GET_USER_STATUS_SCRIPT_def Let_def
        lua_or_def lua_and_def lua_truthy_def lua_tonumber_def table_reply_def js_at_def
        lua_to_js_def)
qed

lemma shop_no_result: "getUserResult ''41'' ''1'' shop = Inr None"
  by (simp add: getUserResult_def redis_GET_def shop_def)

lemma shop_status:
  "getUserStatus ''41'' ''1'' shop =
     (Inr \<lparr>hasAttempted = True, hasResult = True, result = Some False\<rparr>, shop)"
  by (simp add: getUserStatus_def GET_USER_STATUS_SCRIPT_def Let_def call_GET_def
      redis_GET_def redis_SISMEMBER_def bulk_to_lua_def lua_or_def lua_and_def lua_truthy_def
      lua_tonumber_def table_reply_def js_at_def lua_to_js_def shop_def)

text \<open>
  Claim C4, at a failing input. User 41 has attempted and the result cache has no entry
  for them. \<^verbatim>\<open>tryReserve\<close> answers "not a first attempt"; the status script reads the
  missing result as \<^verbatim>\<open>false\<close>, which is not \<^verbatim>\<open>nil\<close>, so it reports that a result
  exists, and the decoded result is \<^verbatim>\<open>false\<close>: the orchestrator returns the settled
  message of a failed purchase where the claim has the pending message.
\<close>
theorem repeat_attempt_never_pending:
  "getUserResult ''41'' ''1'' (redis demo_world) = Inr None
   \<and> fst (RedisService_attemptPurchase ''41'' ''1'' (redis demo_world)) =
       Inr \<lparr>success = False, remainingStock = JNumber 2, wasNewAttempt = False\<rparr>
   \<and> FlashSaleService_attemptPurchase demo_env ''41'' 1 demo_world =
       (Inr \<lparr>ok = False, message = ''Your purchase attempt was unsuccessful.''\<rparr>,
        demo_world\<lparr>calls := [Call_stockKeyExists ''1'', Call_attemptPurchase ''41'' ''1'',
                               Call_getUserStatus ''41'' ''1'']\<rparr>)"
proof -
  have r: "redis demo_world = shop" by (simp add: demo_world_def)
  have "FlashSaleService_attemptPurchase demo_env ''41'' 1 demo_world =
       (Inr \<lparr>ok = False, message = ''Your purchase attempt was unsuccessful.''\<rparr>,
        demo_world\<lparr>calls := [Call_stockKeyExists ''1'', Call_attemptPurchase ''41'' ''1'',
                               Call_getUserStatus ''41'' ''1'']\<rparr>)"
    by (simp add: in_window [OF demo_found demo_window] demo_product demo_ensure called_def r
        shop_repeat already_attempted_def shop_status)
       (simp add: demo_world_def)
  with r shop_no_result shop_repeat show ?thesis by simp
qed

lemma sold_out_found: "flash_sales sold_out_world 1 = Some demo_sale"
  by (simp add: sold_out_world_def demo_world_def)

lemma sold_out_ensure:
  "redis (snd (ensure_stock ''1'' demo_sale sold_out_world)) =
     [''flashsale:stock:1'' \<mapsto> RString ''0'' None]"
  by (simp add: ensure_stock_eq stockKeyExists_iff sold_out_world_def demo_world_def
      stock_key_def called_def)

lemma sold_out_reserve:
  "RedisService_attemptPurchase ''7'' ''1'' [''flashsale:stock:1'' \<mapsto> RString ''0'' None] =
     (Inr \<lparr>success = False, remainingStock = JNumber 0, wasNewAttempt = True\<rparr>,
      [''flashsale:stock:1'' \<mapsto> RString ''0'' None,
       ''flashsale:attempted:1'' \<mapsto> RSet {''7''}])"
  by (simp add: script_defs stock_key_def attempted_key_def decimal_eval)

theorem eager_failed_write_witness:
  "fst (FlashSaleService_attemptPurchase demo_env ''7'' 1 sold_out_world) =
     Inr \<lparr>ok = False, message = ''Sorry, the item is out of stock.''\<rparr>
   \<and> getUserResult ''7'' ''1''
        (redis (snd (FlashSaleService_attemptPurchase demo_env ''7'' 1 sold_out_world))) =
       Inr (Some False)"
proof -
  have run: "RedisService_attemptPurchase ''7'' (int_to_string (sale_productId demo_sale))
       (redis (snd (ensure_stock (int_to_string (sale_productId demo_sale)) demo_sale sold_out_world))) =
     (Inr \<lparr>success = False, remainingStock = JNumber 0, wasNewAttempt = True\<rparr>,
      [''flashsale:stock:1'' \<mapsto> RString ''0'' None,
       ''flashsale:attempted:1'' \<mapsto> RSet {''7''}])"
    by (simp add: demo_product sold_out_ensure sold_out_reserve)
  from eager_failed_write [OF sold_out_found demo_window run]
  show ?thesis by (simp add: demo_product)
qed

lemma demo_down_window:
  "sale_startAt demo_sale \<le> now demo_env_down" "now demo_env_down \<le> sale_endAt demo_sale"
  by (simp_all add: demo_sale_def demo_env_down_def demo_env_def)

theorem rollback_restores_stock_witness:
  "fst (FlashSaleService_attemptPurchase demo_env_down ''7'' 1 demo_world) =
     Inr \<lparr>ok = False, message = ''Failed to process your request. Please try again.''\<rparr>
   \<and> StockCounter ''1''
        (redis (snd (FlashSaleService_attemptPurchase demo_env_down ''7'' 1 demo_world))) = Some 2
   \<and> ''7'' \<in> AttemptedSet ''1''
        (redis (snd (FlashSaleService_attemptPurchase demo_env_down ''7'' 1 demo_world)))"
proof -
  have r: "redis (called (Call_stockKeyExists ''1'') demo_world) = shop"
    by (simp add: called_def demo_world_def)
  have run: "RedisService_attemptPurchase ''7'' (int_to_string (sale_productId demo_sale))
       (redis (snd (ensure_stock (int_to_string (sale_productId demo_sale)) demo_sale demo_world))) =
     (Inr \<lparr>success = True, remainingStock = JNumber 1, wasNewAttempt = True\<rparr>,
      shop(''flashsale:stock:1'' \<mapsto> RString ''1'' None,
           ''flashsale:attempted:1'' \<mapsto> RSet {''7'', ''41''}))"
    by (simp add: demo_product demo_ensure r shop_grant)
  have g: "success \<lparr>success = True, remainingStock = JNumber 1, wasNewAttempt = True\<rparr>"
    by simp
  have d: "\<not> publish_ok demo_env_down"
    by (simp add: demo_env_down_def)
  from rollback_restores_stock [OF demo_found demo_down_window run g d]
  show ?thesis by (auto simp: demo_product demo_ensure r shop_counter)
qed

theorem sale_window_gating_witness:
  "flash_sales demo_world 1 = Some demo_sale
   \<and> now (demo_env\<lparr>now := 500\<rparr>) < sale_startAt demo_sale
   \<and> (\<exists>m. FlashSaleService_attemptPurchase (demo_env\<lparr>now := 500\<rparr>) ''7'' 1 demo_world =
             (Inr \<lparr>ok = False, message = m\<rparr>, demo_world)
          \<and> sublist (toISOString (demo_env\<lparr>now := 500\<rparr>) (sale_startAt demo_sale)) m)
   \<and> Call_attemptPurchase ''7'' (int_to_string (sale_productId demo_sale))
        \<in> set (calls (snd (FlashSaleService_attemptPurchase (demo_env\<lparr>now := 1000\<rparr>) ''7'' 1 demo_world)))"
proof -
  have early: "now (demo_env\<lparr>now := 500\<rparr>) < sale_startAt demo_sale"
    by (simp add: demo_sale_def)
  have edge: "sale_startAt demo_sale \<le> now (demo_env\<lparr>now := 1000\<rparr>)
      \<and> now (demo_env\<lparr>now := 1000\<rparr>) \<le> sale_endAt demo_sale"
    by (simp add: demo_sale_def)
  from sale_window_gating [of demo_world 1 "demo_env\<lparr>now := 500\<rparr>" "''7''"] demo_found early
  have 1: "\<exists>m. FlashSaleService_attemptPurchase (demo_env\<lparr>now := 500\<rparr>) ''7'' 1 demo_world =
             (Inr \<lparr>ok = False, message = m\<rparr>, demo_world)
          \<and> sublist (toISOString (demo_env\<lparr>now := 500\<rparr>) (sale_startAt demo_sale)) m"
    by blast
  from sale_window_gating [of demo_world 1 "demo_env\<lparr>now := 1000\<rparr>" "''7''"] demo_found edge
  have 2: "Call_attemptPurchase ''7'' (int_to_string (sale_productId demo_sale))
        \<in> set (calls (snd (FlashSaleService_attemptPurchase (demo_env\<lparr>now := 1000\<rparr>) ''7'' 1 demo_world)))"
    by blast
  from demo_found early 1 2 show ?thesis by blast
qed







theorem key_space_layout_witness:
  "layout_agree ''7'' ''1'' shop (shop(''flashsale:stock:2'' \<mapsto> RString ''9'' None))
   \<and> \<bar>2 :: int\<bar> \<le> 2 ^ 53
   \<and> fst (RedisService_attemptPurchase ''7'' ''1'' (shop(''flashsale:stock:2'' \<mapsto> RString ''9'' None))) =
       fst (RedisService_attemptPurchase ''7'' ''1'' shop)
   \<and> snd (setUserResult ''7'' ''1'' True shop) ''flashsale:result:7:1'' =
       Some (RString ''1'' (Some 86400))
   \<and> snd (initializeStock ''1'' 2 shop) ''flashsale:stock:1'' = Some (RString ''2'' None)"
proof -
  let ?s2 = "shop(''flashsale:stock:2'' \<mapsto> RString ''9'' None)"
  have a: "layout_agree ''7'' ''1'' shop ?s2"
    by (simp add: layout_agree_def stock_key_def attempted_key_def result_key_def)
  have small: "\<bar>2 :: int\<bar> \<le> 2 ^ 53"
    by simp
  have two: "int_to_string 2 = ''2''"
    by (simp add: decimal_eval)
  from key_space_layout [of "''7''" "''1''" shop 2 True ?s2] a small
  have "fst (RedisService_attemptPurchase ''7'' ''1'' ?s2) =
          fst (RedisService_attemptPurchase ''7'' ''1'' shop)"
    and "snd (setUserResult ''7'' ''1'' True shop) (''flashsale:result:'' @ ''7'' @ '':'' @ ''1'') =
          Some (RString (if True then ''1'' else ''0'') (Some 86400))"
    and "snd (initializeStock ''1'' 2 shop) (''flashsale:stock:'' @ ''1'') =
          Some (RString (int_to_string 2) None)"
    by blast+
  with a small two show ?thesis by simp
qed

end
